theory Spec2Isabelle
  imports Complex_Main
begin

section \<open>Robert edge detection: the pixel kernel\<close>

subsection \<open>Encodings and rasters\<close>

text \<open>
  Modelled from the spec: the enumeration \<open>EncodingType\<close> is declared in a header that is
  not part of the sources. The two complex tags are named in \<open>Robert::execute\<close>; the other
  eight are the "fixed set of integer/float types" of the data model, under the names of
  the same header.
\<close>

datatype EncodingType =
    INT1SBYTE | INT1UBYTE | INT2SBYTES | INT2UBYTES | INT4SCOMPLEX
  | INT4SBYTES | INT4UBYTES | FLT4BYTES | FLT8COMPLEX | FLT8BYTES

text \<open>
  The largest value of the C++ type that \<open>switchOnEncoding\<close> selects for an integer
  encoding (\<open>std::numeric_limits<T>::max()\<close>); \<open>None\<close> for the floating and the complex
  encodings.
\<close>

fun integerMax :: "EncodingType \<Rightarrow> int option" where
  "integerMax INT1SBYTE = Some 127"
| "integerMax INT1UBYTE = Some 255"
| "integerMax INT2SBYTES = Some 32767"
| "integerMax INT2UBYTES = Some 65535"
| "integerMax INT4SBYTES = Some 2147483647"
| "integerMax INT4UBYTES = Some 4294967295"
| "integerMax INT4SCOMPLEX = None"
| "integerMax FLT4BYTES = None"
| "integerMax FLT8COMPLEX = None"
| "integerMax FLT8BYTES = None"

text \<open>The smallest value of that type (\<open>std::numeric_limits<T>::min()\<close>).\<close>

fun integerMin :: "EncodingType \<Rightarrow> int option" where
  "integerMin INT1SBYTE = Some (- 128)"
| "integerMin INT1UBYTE = Some 0"
| "integerMin INT2SBYTES = Some (- 32768)"
| "integerMin INT2UBYTES = Some 0"
| "integerMin INT4SBYTES = Some (- 2147483648)"
| "integerMin INT4UBYTES = Some 0"
| "integerMin INT4SCOMPLEX = None"
| "integerMin FLT4BYTES = None"
| "integerMin FLT8COMPLEX = None"
| "integerMin FLT8BYTES = None"

text \<open>
  A raster element with its descriptor: name, geometry, encoding, and the samples of its
  first band. The input cube stores a total grid \<open>nat \<Rightarrow> nat \<Rightarrow> int\<close> (row, then column);
  the result cube stores the samples written so far, \<open>nat \<times> nat \<rightharpoonup> int\<close>, where \<open>None\<close> is a
  sample that still holds what \<open>createRasterElement\<close> left there. A sample of an integer
  encoding is its value; a sample of a floating encoding is its stored bit pattern (32
  bits for \<open>FLT4BYTES\<close>, 64 for \<open>FLT8BYTES\<close>), read as a number of IEEE 754 by
  \<open>decodeFloat\<close> below. Row and column counts are \<open>unsigned int\<close> in the source.
\<close>

record 'd RasterElement =
  getName :: string
  getRowCount :: nat
  getColumnCount :: nat
  getDataType :: EncodingType
  cubeData :: 'd

type_synonym SourceCube = "(nat \<Rightarrow> nat \<Rightarrow> int) RasterElement"
type_synonym ResultCube = "(nat \<times> nat \<rightharpoonup> int) RasterElement"

subsection \<open>The read cursor\<close>

text \<open>
  Modelled from the spec: \<open>DataAccessor\<close> is a class of the host application. Following
  the data model, a cursor is valid exactly while it is positioned inside
  \<open>[0,rowCount) \<times> [0,colCount)\<close>. The field \<open>accLog\<close> records the coordinates of every
  \<open>toPixel\<close> call, in order.
\<close>

record DataAccessor =
  accRow :: int
  accCol :: int
  accValid :: bool
  accLog :: "(int \<times> int) list"

definition inBounds :: "'d RasterElement \<Rightarrow> int \<Rightarrow> int \<Rightarrow> bool" where
  "inBounds cube r c =
     (0 \<le> r \<and> r < int (getRowCount cube) \<and> 0 \<le> c \<and> c < int (getColumnCount cube))"

definition toPixel :: "'d RasterElement \<Rightarrow> int \<Rightarrow> int \<Rightarrow> DataAccessor \<Rightarrow> DataAccessor" where
  "toPixel cube r c acc =
     acc\<lparr>accRow := r, accCol := c, accValid := inBounds cube r c, accLog := accLog acc @ [(r, c)]\<rparr>"

definition getColumn :: "SourceCube \<Rightarrow> DataAccessor \<Rightarrow> int" where
  "getColumn cube acc = cubeData cube (nat (accRow acc)) (nat (accCol acc))"

subsection \<open>The integer square root\<close>

text \<open>
  The integer square root, by halving: the largest \<open>r\<close> with \<open>r * r \<le> n\<close>.
\<close>

fun isqrt :: "nat \<Rightarrow> nat" where
  "isqrt n =
     (if n < 4 then (if n = 0 then 0 else 1)
      else (let r = 2 * isqrt (n div 4) in if (r + 1) * (r + 1) \<le> n then r + 1 else r))"

declare isqrt.simps [simp del]

subsection \<open>Double arithmetic\<close>

text \<open>
  The values of \<open>double\<close> and \<open>float\<close>: a finite number, the two infinities, and
  not-a-number. The sign of a zero is not kept: the kernel squares \<open>gx\<close> and \<open>gy\<close>
  before it takes the root, so that sign never reaches the stored sample. The payload of
  a NaN is not kept either.
\<close>

datatype fp = Finite real | PosInf | NegInf | NaN

text \<open>Rounding to the nearest integer, a tie to the even one.\<close>

definition rne :: "real \<Rightarrow> int" where
  "rne y =
     (let f = \<lfloor>y\<rfloor>
      in if y - of_int f < 1 / 2 then f
         else if 1 / 2 < y - of_int f then f + 1
         else if even f then f else f + 1)"

text \<open>
  IEEE 754 rounding to nearest, ties to even, into the binary format of precision \<open>p\<close>
  and largest exponent \<open>emax\<close> (53 and 1023 for \<open>double\<close>, 24 and 127 for \<open>float\<close>): the
  number is rounded to a multiple of the spacing of the format at its size (that of the
  subnormal numbers below the smallest normal one), and a result of magnitude
  \<open>2^(emax + 1)\<close> or more is an infinity.
\<close>

definition roundTo :: "nat \<Rightarrow> int \<Rightarrow> real \<Rightarrow> fp" where
  "roundTo p emax x =
     (if x = 0 then Finite 0
      else
        let e = max \<lfloor>log 2 \<bar>x\<bar>\<rfloor> (1 - emax);
            q = 2 powr of_int (e - (int p - 1));
            r = of_int (rne (x / q)) * q
        in if 2 powr of_int (emax + 1) \<le> \<bar>r\<bar> then (if 0 < x then PosInf else NegInf)
           else Finite r)"

text \<open>Sum, product and square root of \<open>double\<close>, each the exact result rounded.\<close>

fun dadd :: "fp \<Rightarrow> fp \<Rightarrow> fp" where
  "dadd NaN y = NaN"
| "dadd x NaN = NaN"
| "dadd (Finite a) (Finite b) = roundTo 53 1023 (a + b)"
| "dadd PosInf NegInf = NaN"
| "dadd NegInf PosInf = NaN"
| "dadd PosInf y = PosInf"
| "dadd x PosInf = PosInf"
| "dadd NegInf y = NegInf"
| "dadd x NegInf = NegInf"

fun negative :: "fp \<Rightarrow> bool" where
  "negative (Finite a) = (a < 0)"
| "negative NegInf = True"
| "negative PosInf = False"
| "negative NaN = False"

fun dmul :: "fp \<Rightarrow> fp \<Rightarrow> fp" where
  "dmul NaN y = NaN"
| "dmul x NaN = NaN"
| "dmul (Finite a) (Finite b) = roundTo 53 1023 (a * b)"
| "dmul x y =
     (if x = Finite 0 \<or> y = Finite 0 then NaN
      else if negative x = negative y then PosInf else NegInf)"

fun dsqrt :: "fp \<Rightarrow> fp" where
  "dsqrt (Finite a) = (if a < 0 then NaN else roundTo 53 1023 (sqrt a))"
| "dsqrt PosInf = PosInf"
| "dsqrt NegInf = NaN"
| "dsqrt NaN = NaN"

text \<open>
  The bit pattern of a floating sample, with \<open>fb\<close> fraction bits and \<open>eb\<close> exponent bits
  (23 and 8 for \<open>float\<close>, 52 and 11 for \<open>double\<close>), and the number it stands for. A NaN is
  written back as the quiet NaN of positive sign.
\<close>

definition decodeFloat :: "nat \<Rightarrow> nat \<Rightarrow> int \<Rightarrow> fp" where
  "decodeFloat fb eb bits =
     (let f = bits mod 2 ^ fb;
          E = (bits div 2 ^ fb) mod 2 ^ eb;
          neg = ((bits div 2 ^ (fb + eb)) mod 2 = 1);
          bias = 2 ^ (eb - 1) - 1
      in if E = 2 ^ eb - 1 then (if f \<noteq> 0 then NaN else if neg then NegInf else PosInf)
         else
           let a = (if E = 0 then of_int f * 2 powr of_int (1 - bias - int fb)
                    else of_int (2 ^ fb + f) * 2 powr of_int (E - bias - int fb))
           in Finite (if neg then - a else a))"

definition encodeFloat :: "nat \<Rightarrow> nat \<Rightarrow> fp \<Rightarrow> int" where
  "encodeFloat fb eb v =
     (let top = (2 ^ eb - 1) * 2 ^ fb; sign = 2 ^ (fb + eb); bias = 2 ^ (eb - 1) - 1
      in case v of
           NaN \<Rightarrow> top + 2 ^ (fb - 1)
         | PosInf \<Rightarrow> top
         | NegInf \<Rightarrow> sign + top
         | Finite x \<Rightarrow>
             if x = 0 then 0
             else
               let e = \<lfloor>log 2 \<bar>x\<bar>\<rfloor>;
                   body = (if e < 1 - bias then \<lfloor>\<bar>x\<bar> / 2 powr of_int (1 - bias - int fb)\<rfloor>
                           else (e + bias) * 2 ^ fb
                                + (\<lfloor>\<bar>x\<bar> / 2 powr of_int (e - int fb)\<rfloor> - 2 ^ fb))
               in (if x < 0 then sign else 0) + body)"

subsection \<open>Arithmetic of the kernel\<close>

text \<open>
  The promotion of a sample of type \<open>T\<close> to \<open>double\<close> in \<open>1.0 * midVal\<close>: exact for the
  integer types, whose values have at most 32 bits, and for \<open>float\<close>. (The template is
  never instantiated at a complex encoding; the last equation covers those tags too.)
\<close>

fun toDouble :: "EncodingType \<Rightarrow> int \<Rightarrow> fp" where
  "toDouble FLT4BYTES v = decodeFloat 23 8 v"
| "toDouble FLT8BYTES v = decodeFloat 52 11 v"
| "toDouble T v = Finite (of_int v)"

text \<open>Lines 59 to 61: \<open>gx\<close>, \<open>gy\<close> and \<open>magnitude\<close>, in \<open>double\<close>.\<close>

definition magnitude :: "EncodingType \<Rightarrow> int \<Rightarrow> int \<Rightarrow> int \<Rightarrow> int \<Rightarrow> fp" where
  "magnitude T midVal rightVal downVal lowerRightVal =
     (let gx = dadd (dmul (Finite 1) (toDouble T midVal))
                    (dmul (Finite (- 1)) (toDouble T lowerRightVal));
          gy = dadd (dmul (Finite 1) (toDouble T rightVal))
                    (dmul (Finite (- 1)) (toDouble T downVal))
      in dsqrt (dadd (dmul gx gx) (dmul gy gy)))"

text \<open>
  Line 63, \<open>static_cast<T>(magnitude)\<close>. To an integer type the conversion drops the
  fraction, and it is defined only for a finite number whose integer part is a value of
  the type: \<open>None\<close> is the undefined conversion. To \<open>float\<close> the number is rounded to the
  precision of \<open>float\<close>; to \<open>double\<close> it is unchanged.
\<close>

definition dropFraction :: "real \<Rightarrow> int" where
  "dropFraction r = (if 0 \<le> r then \<lfloor>r\<rfloor> else \<lceil>r\<rceil>)"

fun staticCast :: "EncodingType \<Rightarrow> fp \<Rightarrow> int option" where
  "staticCast FLT4BYTES (Finite r) = Some (encodeFloat 23 8 (roundTo 24 127 r))"
| "staticCast FLT4BYTES m = Some (encodeFloat 23 8 m)"
| "staticCast FLT8BYTES m = Some (encodeFloat 52 11 m)"
| "staticCast T (Finite r) =
     (case (integerMin T, integerMax T) of
        (Some lo, Some hi) \<Rightarrow>
          if lo \<le> dropFraction r \<and> dropFraction r \<le> hi then Some (dropFraction r) else None
      | _ \<Rightarrow> None)"
| "staticCast T m = None"

text \<open>
  The same three lines in integer arithmetic, for integer samples: \<open>gradientSq\<close> is
  \<open>gx * gx + gy * gy\<close>.
\<close>

definition gradientSq :: "int \<Rightarrow> int \<Rightarrow> int \<Rightarrow> int \<Rightarrow> int" where
  "gradientSq midVal rightVal downVal lowerRightVal =
     (let gx = 1 * midVal + -1 * lowerRightVal;
          gy = 1 * rightVal + -1 * downVal
      in gx * gx + gy * gy)"

text \<open>
  The fragment on which the kernel is evaluated in integers: an integer type, four samples
  that are values of the type, a sum \<open>gx * gx + gy * gy\<close> below \<open>2^52\<close>, and a root whose
  integer part fits the type. There every operation of lines 59 and 60 and both products
  and the sum of line 61 are exact in \<open>double\<close>, the rounded square root lies in the same
  unit interval as the real one, and the conversion yields \<open>isqrt\<close> of the sum: the lemma
  \<open>storedMagnitude_ieee\<close> below proves that the first branch of \<open>storedMagnitude\<close> is
  the value of its second branch, so that the branch only serves evaluation.

  Where the conversion of line 63 is undefined, the stored sample is whatever the platform
  leaves there: the parameter \<open>native\<close>, about which nothing is assumed.
\<close>

type_synonym NativeArith = "EncodingType \<Rightarrow> int \<Rightarrow> int \<Rightarrow> int \<Rightarrow> int \<Rightarrow> int"

definition exactFragment :: "EncodingType \<Rightarrow> int \<Rightarrow> int \<Rightarrow> int \<Rightarrow> int \<Rightarrow> bool" where
  "exactFragment T midVal rightVal downVal lowerRightVal =
     (case (integerMin T, integerMax T) of
        (Some lo, Some hi) \<Rightarrow>
          (lo \<le> midVal \<and> midVal \<le> hi) \<and> (lo \<le> rightVal \<and> rightVal \<le> hi)
          \<and> (lo \<le> downVal \<and> downVal \<le> hi) \<and> (lo \<le> lowerRightVal \<and> lowerRightVal \<le> hi)
          \<and> gradientSq midVal rightVal downVal lowerRightVal < 2 ^ 52
          \<and> int (isqrt (nat (gradientSq midVal rightVal downVal lowerRightVal))) \<le> hi
      | _ \<Rightarrow> False)"

definition storedMagnitude :: "NativeArith \<Rightarrow> EncodingType \<Rightarrow> int \<Rightarrow> int \<Rightarrow> int \<Rightarrow> int \<Rightarrow> int" where
  "storedMagnitude native T midVal rightVal downVal lowerRightVal =
     (if exactFragment T midVal rightVal downVal lowerRightVal
      then int (isqrt (nat (gradientSq midVal rightVal downVal lowerRightVal)))
      else case staticCast T (magnitude T midVal rightVal downVal lowerRightVal) of
             Some v \<Rightarrow> v
           | None \<Rightarrow> native T midVal rightVal downVal lowerRightVal)"

text \<open>
  A sample that is a finite number of its encoding: a value of the type for an integer
  encoding, a bit pattern that is neither a NaN nor an infinity for a floating one.
\<close>

definition finiteSample :: "EncodingType \<Rightarrow> int \<Rightarrow> bool" where
  "finiteSample T v =
     (case (integerMin T, integerMax T) of
        (Some lo, Some hi) \<Rightarrow> lo \<le> v \<and> v \<le> hi
      | _ \<Rightarrow> (case toDouble T v of Finite x \<Rightarrow> True | _ \<Rightarrow> False))"

subsection \<open>edgeDetection\<close>

text \<open>
  The template \<open>edgeDetection<T>\<close>, with \<open>T\<close> given by the encoding. The result is the
  value stored through \<open>pData\<close>, or \<open>None\<close> when a \<open>VERIFYNRV\<close> returned before the store,
  together with the read cursor as the call leaves it.
\<close>

definition edgeDetection ::
  "NativeArith \<Rightarrow> EncodingType \<Rightarrow> SourceCube \<Rightarrow> DataAccessor \<Rightarrow> int \<Rightarrow> int \<Rightarrow> int \<Rightarrow> int
     \<Rightarrow> int option \<times> DataAccessor" where
  "edgeDetection native T cube pSrcAcc row col rowSize colSize =
     (let prevCol = max (col - 1) 0;
          prevRow = max (row - 1) 0;
          nextCol = min (col + 1) (colSize - 1);
          nextRow = min (row + 1) (rowSize - 1);
          a1 = toPixel cube row nextCol pSrcAcc
      in if \<not> accValid a1 then (None, a1)
         else
           let rightVal = getColumn cube a1;
               a2 = toPixel cube nextRow col a1
           in if \<not> accValid a2 then (None, a2)
              else
                let downVal = getColumn cube a2;
                    a3 = toPixel cube nextRow nextCol a2
                in if \<not> accValid a3 then (None, a3)
                   else
                     let lowerRightVal = getColumn cube a3;
                         a4 = toPixel cube row col a3
                     in if \<not> accValid a4 then (None, a4)
                        else
                          let midVal = getColumn cube a4
                          in (Some (storedMagnitude native T midVal rightVal downVal lowerRightVal), a4))"

text \<open>
  Modelled from the spec: the macro \<open>switchOnEncoding\<close> comes from a header outside the
  sources. It instantiates the method at the type of each of the eight real encodings and
  does nothing for any other tag.
\<close>

definition switchOnEncoding ::
  "EncodingType \<Rightarrow> (EncodingType \<Rightarrow> int option \<times> DataAccessor) \<Rightarrow> DataAccessor
     \<Rightarrow> int option \<times> DataAccessor" where
  "switchOnEncoding encoding method pSrcAcc =
     (if encoding = INT4SCOMPLEX \<or> encoding = FLT8COMPLEX then (None, pSrcAcc)
      else method encoding)"


section \<open>Robert::execute\<close>

subsection \<open>Host services\<close>

text \<open>
  What the run reports: the calls of \<open>Progress::updateProgress\<close> and of
  \<open>StepResource::finalize\<close>, and the two checks made at the head of a row, the poll of
  \<open>isAborted()\<close> and the test of \<open>pDestAcc.isValid()\<close>, each with the row it belongs to.
\<close>

datatype ReportingLevel = NORMAL | WARNING | ABORT | ERRORS

datatype MessageResult = Success | Failure | Abort

datatype event =
    UpdateProgress string nat ReportingLevel
  | Finalize MessageResult string
  | IsAborted nat
  | IsValid nat

text \<open>
  The services of the host application that \<open>execute\<close> calls and whose code is not in the
  sources are parameters of the model: the value of the abort flag when it is polled at
  the head of row \<open>n\<close>, the validity of the write cursor at the head of row \<open>n\<close>, whether
  \<open>RasterUtilities::createRasterElement\<close> returns a raster, whether the plug-in runs in
  batch mode, whether the desktop can create the window and its view, and what the
  platform stores where the conversion of line 63 is undefined.
\<close>

record Host =
  isAborted :: "nat \<Rightarrow> bool"
  destIsValid :: "nat \<Rightarrow> bool"
  createRasterElementOk :: bool
  isBatch :: bool
  createViewOk :: bool
  nativeArith :: NativeArith

text \<open>
  Modelled from the spec: \<open>PlugInArgList\<close> is a class of the host application, the
  "argument-list plumbing" that the specification leaves to the host. The input list
  holds the optional progress reporter and the optional data element. The output list
  holds one optional value for each declared name, in order of declaration;
  \<open>setPlugInArgValue\<close> stores a value under a declared name and leaves the list alone for
  a name that was never declared.
\<close>

record InArgList =
  progressArg :: bool
  dataElementArg :: "SourceCube option"

type_synonym OutArgList = "(string \<times> ResultCube option) list"

definition addArg :: "string \<Rightarrow> OutArgList \<Rightarrow> OutArgList" where
  "addArg name args = args @ [(name, None)]"

definition setPlugInArgValue :: "string \<Rightarrow> ResultCube \<Rightarrow> OutArgList \<Rightarrow> OutArgList" where
  "setPlugInArgValue name v args =
     map (\<lambda>(n, old). if n = name then (n, Some v) else (n, old)) args"

definition getPlugInArgValue :: "string \<Rightarrow> OutArgList \<Rightarrow> ResultCube option" where
  "getPlugInArgValue name args = (case map_of args name of None \<Rightarrow> None | Some v \<Rightarrow> v)"

definition getOutputSpecification :: OutArgList where
  "getOutputSpecification = addArg ''Result'' []"

subsection \<open>The scan\<close>

text \<open>
  The state of the scan: the reports so far, the read cursor \<open>pSrcAcc\<close>, the position of
  the write cursor \<open>pDestAcc\<close>, and the result cube.
\<close>

record ScanState =
  events :: "event list"
  srcAcc :: DataAccessor
  destRow :: nat
  destCol :: nat
  resultCube :: ResultCube

definition report :: "event list \<Rightarrow> ScanState \<Rightarrow> ScanState" where
  "report es st = st\<lparr>events := events st @ es\<rparr>"

definition updateProgress :: "bool \<Rightarrow> string \<Rightarrow> nat \<Rightarrow> ReportingLevel \<Rightarrow> event list" where
  "updateProgress pProgress msg percent level =
     (if pProgress then [UpdateProgress msg percent level] else [])"

text \<open>
  Modelled from the spec: the write cursor advances "strictly monotonic left-to-right,
  top-to-bottom"; \<open>nextColumn\<close> moves one column on, \<open>nextRow\<close> moves to the first column
  of the next row.
\<close>

definition nextColumn :: "ScanState \<Rightarrow> ScanState" where
  "nextColumn st = st\<lparr>destCol := destCol st + 1\<rparr>"

definition nextRow :: "ScanState \<Rightarrow> ScanState" where
  "nextRow st = st\<lparr>destRow := destRow st + 1, destCol := 0\<rparr>"

text \<open>
  The call of lines 183 and 184 passes four \<open>unsigned int\<close> values, \<open>row\<close>, \<open>col\<close> and the
  two counts, for the \<open>int\<close> parameters of the kernel. An \<open>unsigned int\<close> is a number
  below \<open>2^32\<close>: the conversion leaves it unchanged below \<open>2^31\<close> and lowers it by \<open>2^32\<close>
  from there on. (A number from \<open>2^32\<close> on is no \<open>unsigned int\<close>; the function reduces it
  modulo \<open>2^32\<close> first, so that it is negative there as well.) The kernel's own
  arithmetic on the converted values, \<open>col + 1\<close> or \<open>rowSize - 1\<close>, is in unbounded integers
  here; in the source it can leave the range of \<open>int\<close> only on a raster with a count of
  \<open>2^31\<close> or more.
\<close>

definition toInt :: "nat \<Rightarrow> int" where
  "toInt n = (if n < 2147483648 then int n else int (n mod 4294967296) - 4294967296)"

text \<open>
  Lines 183 to 185, the body of the column loop: the kernel is dispatched on the encoding
  with \<open>pDestAcc->getColumn()\<close> as the slot to store into, then the write cursor moves on.
\<close>

definition scanPixel :: "Host \<Rightarrow> SourceCube \<Rightarrow> nat \<Rightarrow> nat \<Rightarrow> ScanState \<Rightarrow> ScanState" where
  "scanPixel h pCube row col st =
     (case switchOnEncoding (getDataType pCube)
             (\<lambda>T. edgeDetection (nativeArith h) T pCube (srcAcc st) (toInt row) (toInt col)
                     (toInt (getRowCount pCube)) (toInt (getColumnCount pCube)))
             (srcAcc st) of
        (stored, acc) \<Rightarrow>
          nextColumn
            (st\<lparr>srcAcc := acc,
                resultCube :=
                  (case stored of
                     None \<Rightarrow> resultCube st
                   | Some v \<Rightarrow>
                       (resultCube st)
                         \<lparr>cubeData := (cubeData (resultCube st))((destRow st, destCol st) \<mapsto> v)\<rparr>)\<rparr>))"

function scanColumns :: "Host \<Rightarrow> SourceCube \<Rightarrow> nat \<Rightarrow> nat \<Rightarrow> ScanState \<Rightarrow> ScanState" where
  "scanColumns h pCube row col st =
     (if col < getColumnCount pCube
      then scanColumns h pCube row (col + 1) (scanPixel h pCube row col st)
      else st)"
  by pat_completeness auto
termination
  by (relation "measure (\<lambda>(h, pCube, row, col, st). getColumnCount pCube - col)") auto

declare scanColumns.simps [simp del]

text \<open>
  How a run ends. \<open>Completed\<close> is \<open>return true\<close>; every other outcome is one of the
  \<open>return false\<close> exits of \<open>execute\<close>, in the order of the source.
\<close>

datatype Outcome =
    Completed
  | NullArgList
  | InvalidInput
  | UnsupportedEncoding
  | AllocationFailed
  | Aborted
  | AccessorInvalid
  | ViewFailed

text \<open>
  Lines 155 to 189, the row loop. The percentage is computed in \<open>unsigned int\<close>, so the
  product \<open>row * 100\<close> wraps at \<open>2^32\<close>. The result is the exit taken inside the loop, or
  \<open>None\<close> when the loop runs to its end.
\<close>

function scanRows :: "Host \<Rightarrow> bool \<Rightarrow> SourceCube \<Rightarrow> nat \<Rightarrow> ScanState \<Rightarrow> Outcome option \<times> ScanState" where
  "scanRows h pProgress pCube row st =
     (if row < getRowCount pCube
      then
        let st1 = report (updateProgress pProgress ''Calculating result''
                            ((row * 100) mod 4294967296 div getRowCount pCube) NORMAL) st;
            st2 = report [IsAborted row] st1
        in if isAborted h row
           then
             let msg = ''Robert Edge Detection'' @ '' has been aborted.''
             in (Some Aborted,
                 report (Finalize Abort msg # updateProgress pProgress msg 0 ABORT) st2)
           else
             let st3 = report [IsValid row] st2
             in if \<not> destIsValid h row
                then
                  let msg = ''Unable to access the cube data.''
                  in (Some AccessorInvalid,
                      report (Finalize Failure msg # updateProgress pProgress msg 0 ERRORS) st3)
                else scanRows h pProgress pCube (row + 1) (nextRow (scanColumns h pCube row 0 st3))
      else (None, st))"
  by pat_completeness auto
termination
  by (relation "measure (\<lambda>(h, pProgress, pCube, row, st). getRowCount pCube - row)") auto

declare scanRows.simps [simp del]

subsection \<open>execute\<close>

text \<open>
  What a run leaves behind: its outcome, its reports, the read cursor and the result cube
  once they exist, and the output argument list. A result cube is kept in the record on
  every exit, so that the record shows what had been written when the run stopped.
\<close>

record Run =
  outcome :: Outcome
  reports :: "event list"
  readCursor :: "DataAccessor option"
  pResultCube :: "ResultCube option"
  outArgs :: "OutArgList option"

definition createRasterElement :: "string \<Rightarrow> nat \<Rightarrow> nat \<Rightarrow> EncodingType \<Rightarrow> ResultCube" where
  "createRasterElement name rows cols encoding =
     \<lparr>getName = name, getRowCount = rows, getColumnCount = cols, getDataType = encoding,
      cubeData = Map.empty\<rparr>"

definition getDataAccessor :: DataAccessor where
  "getDataAccessor = \<lparr>accRow = 0, accCol = 0, accValid = True, accLog = []\<rparr>"

text \<open>
  Lines 136 to 153: the read cursor on the input cube, the result cube created with the
  name, the counts and the encoding of the input, and the write cursor at its first
  sample.
\<close>

definition startScan :: "SourceCube \<Rightarrow> ScanState" where
  "startScan pCube =
     \<lparr>events = [], srcAcc = getDataAccessor, destRow = 0, destCol = 0,
      resultCube =
        createRasterElement (getName pCube @ ''_Edge_Detection_Result'')
          (getRowCount pCube) (getColumnCount pCube) (getDataType pCube)\<rparr>"

definition failWith :: "Outcome \<Rightarrow> bool \<Rightarrow> string \<Rightarrow> OutArgList \<Rightarrow> Run" where
  "failWith out pProgress msg pOutArgList =
     \<lparr>outcome = out,
      reports = Finalize Failure msg # updateProgress pProgress msg 0 ERRORS,
      readCursor = None, pResultCube = None, outArgs = Some pOutArgList\<rparr>"

definition execute :: "Host \<Rightarrow> InArgList option \<Rightarrow> OutArgList option \<Rightarrow> Run" where
  "execute h pInArgList pOutArgList =
     (case (pInArgList, pOutArgList) of
        (Some inArgs, Some outList) \<Rightarrow>
          (let pProgress = progressArg inArgs
           in case dataElementArg inArgs of
                None \<Rightarrow> failWith InvalidInput pProgress ''A raster cube must be specified.'' outList
              | Some pCube \<Rightarrow>
                  if getDataType pCube = INT4SCOMPLEX \<or> getDataType pCube = FLT8COMPLEX
                  then failWith UnsupportedEncoding pProgress
                         ''Edge detection cannot be performed on complex types.'' outList
                  else if \<not> createRasterElementOk h
                  then (failWith AllocationFailed pProgress
                          ''A raster cube could not be created.'' outList)
                         \<lparr>readCursor := Some getDataAccessor\<rparr>
                  else
                    (case scanRows h pProgress pCube 0 (startScan pCube) of
                         (Some stopped, st) \<Rightarrow>
                           \<lparr>outcome = stopped, reports = events st,
                            readCursor = Some (srcAcc st), pResultCube = Some (resultCube st),
                            outArgs = Some outList\<rparr>
                       | (None, st) \<Rightarrow>
                           if \<not> isBatch h \<and> \<not> createViewOk h
                           then
                             let msg = ''Unable to create view.''
                             in \<lparr>outcome = ViewFailed,
                                 reports = events st
                                   @ Finalize Failure msg # updateProgress pProgress msg 0 ERRORS,
                                 readCursor = Some (srcAcc st),
                                 pResultCube = Some (resultCube st),
                                 outArgs = Some outList\<rparr>
                           else
                             \<lparr>outcome = Completed,
                              reports = events st
                                @ updateProgress pProgress ''Edge Detection is complete.'' 100 NORMAL
                                @ [Finalize Success []],
                              readCursor = Some (srcAcc st),
                              pResultCube = Some (resultCube st),
                              outArgs =
                                Some (setPlugInArgValue ''Robert_Edge_Result'' (resultCube st) outList)\<rparr>))
      | _ \<Rightarrow>
          \<lparr>outcome = NullArgList, reports = [], readCursor = None, pResultCube = None,
           outArgs = pOutArgList\<rparr>)"

text \<open>The value that \<open>execute\<close> returns.\<close>

definition returnValue :: "Run \<Rightarrow> bool" where
  "returnValue run = (outcome run = Completed)"

text \<open>The samples of a result cube, row by row.\<close>

definition rasterRows :: "ResultCube \<Rightarrow> int option list list" where
  "rasterRows cube =
     map (\<lambda>r. map (\<lambda>c. cubeData cube (r, c)) [0..<getColumnCount cube]) [0..<getRowCount cube]"


subsection \<open>Observations on a run\<close>

text \<open>The sample of the result cube at a position, when the run has a result cube.\<close>

definition outputSample :: "Run \<Rightarrow> nat \<Rightarrow> nat \<Rightarrow> int option" where
  "outputSample run row col =
     (case pResultCube run of None \<Rightarrow> None | Some cube \<Rightarrow> cubeData cube (row, col))"

definition outputRows :: "Run \<Rightarrow> int option list list option" where
  "outputRows run = map_option rasterRows (pResultCube run)"

text \<open>The reports made before the first occurrence of a given one.\<close>

definition eventsBefore :: "event \<Rightarrow> event list \<Rightarrow> event list" where
  "eventsBefore e es = takeWhile (\<lambda>x. x \<noteq> e) es"

text \<open>
  A raster whose counts are below \<open>2^31\<close>: there the conversion of the counts and of
  every index to \<open>int\<close> changes nothing.
\<close>

definition intSized :: "'d RasterElement \<Rightarrow> bool" where
  "intSized cube = (getRowCount cube < 2147483648 \<and> getColumnCount cube < 2147483648)"

text \<open>Name, row count, column count and encoding of a raster element.\<close>

definition geometry :: "'d RasterElement \<Rightarrow> string \<times> nat \<times> nat \<times> EncodingType" where
  "geometry cube = (getName cube, getRowCount cube, getColumnCount cube, getDataType cube)"

text \<open>The progress report at the head of a row (line 159), when there is a reporter.\<close>

definition rowProgress :: "bool \<Rightarrow> SourceCube \<Rightarrow> nat \<Rightarrow> event list" where
  "rowProgress pProgress pCube row =
     updateProgress pProgress ''Calculating result''
       ((row * 100) mod 4294967296 div getRowCount pCube) NORMAL"

text \<open>
  The value that the kernel stores for an in-bounds pixel, in closed form: the four
  samples are the pixel itself and its right, lower and lower-right neighbours, each
  index clamped to the last row or column.
\<close>

definition kernelValue :: "NativeArith \<Rightarrow> SourceCube \<Rightarrow> nat \<Rightarrow> nat \<Rightarrow> int" where
  "kernelValue native cube row col =
     (let nextCol = min (col + 1) (getColumnCount cube - 1);
          nextRow = min (row + 1) (getRowCount cube - 1)
      in storedMagnitude native (getDataType cube)
           (cubeData cube row col) (cubeData cube row nextCol)
           (cubeData cube nextRow col) (cubeData cube nextRow nextCol))"

text \<open>
  The first row, from \<open>row\<close> on, at whose head the loop leaves (the flag is set or the
  write cursor is invalid); the row count \<open>n\<close> when there is none.
\<close>

function stopRow :: "Host \<Rightarrow> nat \<Rightarrow> nat \<Rightarrow> nat" where
  "stopRow h n row =
     (if row < n
      then (if isAborted h row \<or> \<not> destIsValid h row then row else stopRow h n (row + 1))
      else n)"
  by pat_completeness auto
termination
  by (relation "measure (\<lambda>(h, n, row). n - row)") auto

declare stopRow.simps [simp del]

subsection \<open>The example of the specification\<close>

text \<open>
  The 2 by 2 raster \<open>[[10, 20], [30, 40]]\<close> in a given encoding, a host in which nothing
  fails, and the same host with the abort flag set from the start.
\<close>

definition exampleCube :: "EncodingType \<Rightarrow> SourceCube" where
  "exampleCube T =
     \<lparr>getName = ''cube'', getRowCount = 2, getColumnCount = 2, getDataType = T,
      cubeData = (\<lambda>r c. [[10, 20], [30, 40]] ! r ! c)\<rparr>"

text \<open>A 2 by 2 raster with the same sample everywhere.\<close>

definition constantCube :: "EncodingType \<Rightarrow> int \<Rightarrow> SourceCube" where
  "constantCube T v =
     \<lparr>getName = ''flat'', getRowCount = 2, getColumnCount = 2, getDataType = T,
      cubeData = (\<lambda>r c. v)\<rparr>"

text \<open>
  A raster of one \<open>FLT8BYTES\<close> sample, the quiet NaN \<open>0x7FF8000000000000\<close>, and the
  arguments that pass it.
\<close>

definition nanCube :: SourceCube where
  "nanCube =
     \<lparr>getName = ''nan'', getRowCount = 1, getColumnCount = 1, getDataType = FLT8BYTES,
      cubeData = (\<lambda>r c. 9221120237041090560)\<rparr>"

definition nanArgs :: InArgList where
  "nanArgs = \<lparr>progressArg = True, dataElementArg = Some nanCube\<rparr>"

definition exampleArgs :: "EncodingType \<Rightarrow> InArgList" where
  "exampleArgs T = \<lparr>progressArg = True, dataElementArg = Some (exampleCube T)\<rparr>"

definition exampleHost :: Host where
  "exampleHost =
     \<lparr>isAborted = (\<lambda>n. False), destIsValid = (\<lambda>n. True), createRasterElementOk = True,
      isBatch = True, createViewOk = True, nativeArith = (\<lambda>T a b c d. 0)\<rparr>"

definition abortedHost :: "nat \<Rightarrow> Host" where
  "abortedHost k = exampleHost\<lparr>isAborted := (\<lambda>n. k \<le> n)\<rparr>"


section \<open>Properties\<close>

subsection \<open>The integer square root\<close>



subsection \<open>Rounding to double\<close>

lemma rne_of_int [simp]: "rne (of_int m) = m"
  by (simp add: rne_def)




lemma floor_log2_range:
  assumes "2 ^ lo \<le> a" and "a < 2 ^ hi"
  shows "int lo \<le> \<lfloor>log 2 a\<rfloor>" and "\<lfloor>log 2 a\<rfloor> < int hi"
proof -
  have pos: "0 < a" using assms(1) by (smt (verit) zero_less_power)
  have "real lo \<le> log 2 a"
    using assms(1) pos by (simp add: le_log_iff powr_realpow)
  then show "int lo \<le> \<lfloor>log 2 a\<rfloor>" by (simp add: le_floor_iff)
  have "log 2 a < real hi"
    using assms(2) pos by (simp add: log_less_iff powr_realpow)
  then show "\<lfloor>log 2 a\<rfloor> < int hi" by (simp add: floor_less_iff)
qed

lemma roundTo_Finite:
  assumes "x \<noteq> 0" and "max \<lfloor>log 2 \<bar>x\<bar>\<rfloor> (1 - emax) = e"
    and "2 powr of_int (e - (int p - 1)) = q"
    and "of_int (rne (x / q)) * q = r"
    and "\<not> 2 powr of_int (emax + 1) \<le> \<bar>r\<bar>"
  shows "roundTo p emax x = Finite r"
  using assms(1,5) unfolding roundTo_def Let_def assms(2) assms(3) assms(4) by simp


lemma floor_log2_scaled:
  assumes "0 < a"
  shows "\<lfloor>log 2 (a * 2 powr of_int t)\<rfloor> = \<lfloor>log 2 a\<rfloor> + t"
proof -
  have "log 2 (a * 2 powr of_int t) = log 2 a + of_int t"
    using assms by (simp add: log_mult)
  then show ?thesis by simp
qed

lemma roundTo_dyadic:
  assumes M: "\<bar>M\<bar> < 2 ^ 53" and t: "- 1074 \<le> t" "t \<le> 971"
  shows "roundTo 53 1023 (of_int M * 2 powr of_int t) = Finite (of_int M * 2 powr of_int t)"
proof (cases "M = 0")
  case True
  then show ?thesis by (simp add: roundTo_def)
next
  case False
  define x where "x = real_of_int M * 2 powr of_int t"
  define a where "a = \<bar>real_of_int M\<bar>"
  have "1 \<le> \<bar>M\<bar>" using False by simp
  then have "real_of_int 1 \<le> real_of_int \<bar>M\<bar>" by (simp only: of_int_le_iff)
  then have a1: "(2::real) ^ 0 \<le> a" by (simp add: a_def)
  have a2: "a < 2 ^ 53"
  proof -
    have "real_of_int \<bar>M\<bar> < real_of_int (2 ^ 53)" using M by (simp only: of_int_less_iff)
    then show ?thesis by (simp add: a_def)
  qed
  have apos: "0 < a" using a1 by simp
  define b where "b = \<lfloor>log 2 a\<rfloor>"
  have b: "0 \<le> b" "b < 53" unfolding b_def using floor_log2_range [OF a1 a2] by simp_all
  have ax: "\<bar>x\<bar> = a * 2 powr of_int t" by (simp add: x_def a_def abs_mult)
  have fl: "\<lfloor>log 2 \<bar>x\<bar>\<rfloor> = b + t" unfolding ax b_def using apos by (rule floor_log2_scaled)
  define e where "e = max (b + t) (1 - 1023)"
  define d where "d = nat (t - (e - 52))"
  have "e - 52 \<le> t" using b t unfolding e_def by linarith
  then have dd: "t - (e - 52) = int d" by (simp add: d_def)
  have q: "(2::real) powr of_int (e - (int 53 - 1)) = 2 powr of_int t / 2 ^ d"
  proof -
    have "e - (int 53 - 1) = t - int d" using dd by simp
    then have "(2::real) powr of_int (e - (int 53 - 1)) = 2 powr (of_int t - real d)" by simp
    also have "\<dots> = 2 powr of_int t / 2 powr real d" by (simp add: powr_diff)
    also have "(2::real) powr real d = 2 ^ d" by (simp add: powr_realpow)
    finally show ?thesis .
  qed
  have pt: "(0::real) < 2 powr of_int t" by simp
  have xq: "x / (2 powr of_int t / 2 ^ d) = of_int (M * 2 ^ d)"
    using pt by (simp add: x_def)
  have r: "of_int (rne (x / (2 powr of_int t / 2 ^ d))) * (2 powr of_int t / 2 ^ d) = x"
    unfolding xq rne_of_int by (simp add: x_def)
  have big: "\<not> 2 powr of_int (1023 + 1) \<le> \<bar>x\<bar>"
  proof -
    have a53: "a < 2 powr 53" using a2 powr_realpow [of 2 53] by simp
    have "a * 2 powr of_int t < 2 powr 53 * 2 powr of_int t"
      using a53 pt by (rule mult_strict_right_mono)
    also have "\<dots> = 2 powr (53 + of_int t)" by (rule powr_add [symmetric])
    also have "\<dots> \<le> 2 powr of_int (1023 + 1)"
    proof (rule powr_mono)
      show "53 + real_of_int t \<le> real_of_int (1023 + 1)" using t by simp
    qed simp
    finally show ?thesis unfolding ax by (simp only: not_le)
  qed
  have "x \<noteq> 0" using False by (simp add: x_def)
  then have "roundTo 53 1023 x = Finite x"
  proof (rule roundTo_Finite)
    show "max \<lfloor>log 2 \<bar>x\<bar>\<rfloor> (1 - 1023) = e" by (simp add: fl e_def)
    show "2 powr of_int (e - (int 53 - 1)) = 2 powr of_int t / (2::real) ^ d" by (rule q)
    show "of_int (rne (x / (2 powr of_int t / 2 ^ d))) * (2 powr of_int t / 2 ^ d) = x" by (rule r)
    show "\<not> 2 powr of_int (1023 + 1) \<le> \<bar>x\<bar>" by (rule big)
  qed
  then show ?thesis by (simp only: x_def)
qed


subsection \<open>One call of the kernel\<close>

lemma clamp_next_int: "c < n \<Longrightarrow> min (int c + 1) (int n - 1) = int (min (c + 1) (n - 1))"
  by (auto simp: min_def)

lemma clamp_next_less: "c < n \<Longrightarrow> min (c + 1) (n - 1) < (n::nat)"
  by (auto simp: min_def)

lemma edgeDetection_inside:
  assumes "row < getRowCount cube" and "col < getColumnCount cube"
  shows "edgeDetection native T cube acc (int row) (int col)
           (int (getRowCount cube)) (int (getColumnCount cube)) =
         (Some (storedMagnitude native T
                  (cubeData cube row col)
                  (cubeData cube row (min (col + 1) (getColumnCount cube - 1)))
                  (cubeData cube (min (row + 1) (getRowCount cube - 1)) col)
                  (cubeData cube (min (row + 1) (getRowCount cube - 1))
                     (min (col + 1) (getColumnCount cube - 1)))),
          \<lparr>accRow = int row, accCol = int col, accValid = True,
           accLog = accLog acc @
             [(int row, int (min (col + 1) (getColumnCount cube - 1))),
              (int (min (row + 1) (getRowCount cube - 1)), int col),
              (int (min (row + 1) (getRowCount cube - 1)),
               int (min (col + 1) (getColumnCount cube - 1))),
              (int row, int col)]\<rparr>)"
proof -
  define nc where "nc = min (col + 1) (getColumnCount cube - 1)"
  define nr where "nr = min (row + 1) (getRowCount cube - 1)"
  have c: "min (int col + 1) (int (getColumnCount cube) - 1) = int nc"
    unfolding nc_def using assms(2) by (rule clamp_next_int)
  have r: "min (int row + 1) (int (getRowCount cube) - 1) = int nr"
    unfolding nr_def using assms(1) by (rule clamp_next_int)
  have ncl: "nc < getColumnCount cube"
    unfolding nc_def using assms(2) by (rule clamp_next_less)
  have nrl: "nr < getRowCount cube"
    unfolding nr_def using assms(1) by (rule clamp_next_less)
  show ?thesis
    unfolding edgeDetection_def c r nc_def [symmetric] nr_def [symmetric]
    using assms ncl nrl
    by (simp add: toPixel_def getColumn_def inBounds_def Let_def)
qed

lemma toInt_small [simp]: "n < 2147483648 \<Longrightarrow> toInt n = int n"
  by (simp add: toInt_def)

lemma toInt_large: "\<not> n < 2147483648 \<Longrightarrow> toInt n < 0"
proof -
  have "int (n mod 4294967296) < 4294967296" by simp
  then show "\<not> n < 2147483648 \<Longrightarrow> toInt n < 0" by (simp add: toInt_def)
qed

lemma edgeDetection_oversized:
  assumes "\<not> intSized cube"
  shows "fst (edgeDetection native T cube acc (toInt row) (toInt col)
                (toInt (getRowCount cube)) (toInt (getColumnCount cube))) = None"
proof -
  define nc where "nc = min (toInt col + 1) (toInt (getColumnCount cube) - 1)"
  define nr where "nr = min (toInt row + 1) (toInt (getRowCount cube) - 1)"
  have "nc < 0 \<or> nr < 0"
  proof (cases "getColumnCount cube < 2147483648")
    case False
    then have "toInt (getColumnCount cube) < 0" by (rule toInt_large)
    then show ?thesis by (simp add: nc_def min_less_iff_disj)
  next
    case True
    with assms have "\<not> getRowCount cube < 2147483648" by (simp add: intSized_def)
    then have "toInt (getRowCount cube) < 0" by (rule toInt_large)
    then show ?thesis by (simp add: nr_def min_less_iff_disj)
  qed
  then have "\<not> inBounds cube (toInt row) nc \<or> \<not> inBounds cube nr (toInt col)"
    by (auto simp: inBounds_def)
  then show ?thesis
    unfolding edgeDetection_def Let_def nc_def [symmetric] nr_def [symmetric]
    by (auto simp: toPixel_def)
qed

lemma scanPixel_inside:
  assumes "getDataType pCube \<noteq> INT4SCOMPLEX" "getDataType pCube \<noteq> FLT8COMPLEX"
    and "row < getRowCount pCube" and "col < getColumnCount pCube"
  shows "events (scanPixel h pCube row col st) = events st"
    and "destRow (scanPixel h pCube row col st) = destRow st"
    and "destCol (scanPixel h pCube row col st) = destCol st + 1"
    and "resultCube (scanPixel h pCube row col st) =
           (if intSized pCube
            then (resultCube st)\<lparr>cubeData := (cubeData (resultCube st))
                   ((destRow st, destCol st) \<mapsto> kernelValue (nativeArith h) pCube row col)\<rparr>
            else resultCube st)"
proof -
  show "events (scanPixel h pCube row col st) = events st"
    and "destRow (scanPixel h pCube row col st) = destRow st"
    and "destCol (scanPixel h pCube row col st) = destCol st + 1"
    by (simp_all add: scanPixel_def nextColumn_def split: prod.split)
  show "resultCube (scanPixel h pCube row col st) =
           (if intSized pCube
            then (resultCube st)\<lparr>cubeData := (cubeData (resultCube st))
                   ((destRow st, destCol st) \<mapsto> kernelValue (nativeArith h) pCube row col)\<rparr>
            else resultCube st)"
  proof (cases "intSized pCube")
    case True
    with assms have "toInt row = int row" "toInt col = int col"
      "toInt (getRowCount pCube) = int (getRowCount pCube)"
      "toInt (getColumnCount pCube) = int (getColumnCount pCube)"
      by (simp_all add: intSized_def)
    with True assms show ?thesis
      by (simp add: scanPixel_def switchOnEncoding_def edgeDetection_inside nextColumn_def
            kernelValue_def Let_def)
  next
    case False
    from edgeDetection_oversized [OF this, of "nativeArith h" "getDataType pCube" "srcAcc st" row col]
    obtain acc where "edgeDetection (nativeArith h) (getDataType pCube) pCube (srcAcc st)
        (toInt row) (toInt col) (toInt (getRowCount pCube)) (toInt (getColumnCount pCube)) = (None, acc)"
      by (cases "edgeDetection (nativeArith h) (getDataType pCube) pCube (srcAcc st)
        (toInt row) (toInt col) (toInt (getRowCount pCube)) (toInt (getColumnCount pCube))") simp
    with False assms show ?thesis
      by (simp add: scanPixel_def switchOnEncoding_def nextColumn_def)
  qed
qed

lemma scanColumns_events [simp]: "events (scanColumns h pCube row col st) = events st"
proof (induction h pCube row col st rule: scanColumns.induct)
  case (1 h pCube row col st)
  show ?case
  proof (cases "col < getColumnCount pCube")
    case True
    have "events (scanPixel h pCube row col st) = events st"
      by (simp add: scanPixel_def nextColumn_def split: prod.split)
    with 1 True show ?thesis by (simp add: scanColumns.simps [of h pCube row col st])
  next
    case False
    then show ?thesis by (simp add: scanColumns.simps [of h pCube row col st])
  qed
qed

lemma scanColumns_destRow [simp]: "destRow (scanColumns h pCube row col st) = destRow st"
proof (induction h pCube row col st rule: scanColumns.induct)
  case (1 h pCube row col st)
  show ?case
  proof (cases "col < getColumnCount pCube")
    case True
    have "destRow (scanPixel h pCube row col st) = destRow st"
      by (simp add: scanPixel_def nextColumn_def split: prod.split)
    with 1 True show ?thesis by (simp add: scanColumns.simps [of h pCube row col st])
  next
    case False
    then show ?thesis by (simp add: scanColumns.simps [of h pCube row col st])
  qed
qed

lemma scanPixel_geometry:
  "geometry (resultCube (scanPixel h pCube row col st)) = geometry (resultCube st)"
  by (simp add: geometry_def scanPixel_def nextColumn_def split: prod.split option.split)

lemma scanColumns_geometry [simp]:
  "geometry (resultCube (scanColumns h pCube row col st)) = geometry (resultCube st)"
proof (induction h pCube row col st rule: scanColumns.induct)
  case (1 h pCube row col st)
  show ?case
  proof (cases "col < getColumnCount pCube")
    case True
    with 1 show ?thesis
      by (simp add: scanColumns.simps [of h pCube row col st] scanPixel_geometry)
  next
    case False
    then show ?thesis by (simp add: scanColumns.simps [of h pCube row col st])
  qed
qed

lemma scanColumns_data:
  assumes "getDataType pCube \<noteq> INT4SCOMPLEX" "getDataType pCube \<noteq> FLT8COMPLEX"
    and "row < getRowCount pCube" and "destCol st = col"
  shows "cubeData (resultCube (scanColumns h pCube row col st)) (r, c) =
           (if intSized pCube \<and> r = destRow st \<and> col \<le> c \<and> c < getColumnCount pCube
            then Some (kernelValue (nativeArith h) pCube row c)
            else cubeData (resultCube st) (r, c))"
  using assms
proof (induction h pCube row col st rule: scanColumns.induct)
  case (1 h pCube row col st)
  show ?case
  proof (cases "col < getColumnCount pCube")
    case True
    let ?st = "scanPixel h pCube row col st"
    note px = scanPixel_inside [OF "1.prems"(1,2,3) True, of h st]
    have "cubeData (resultCube (scanColumns h pCube row (col + 1) ?st)) (r, c) =
           (if intSized pCube \<and> r = destRow ?st \<and> col + 1 \<le> c \<and> c < getColumnCount pCube
            then Some (kernelValue (nativeArith h) pCube row c)
            else cubeData (resultCube ?st) (r, c))"
      using "1.IH" [OF True "1.prems"(1,2,3)] px(3) "1.prems"(4) by simp
    then show ?thesis
      using True px "1.prems"(4)
      by (auto simp: scanColumns.simps [of h pCube row col st])
  next
    case False
    then show ?thesis by (auto simp: scanColumns.simps [of h pCube row col st])
  qed
qed

lemma stopRow_bounds: "row \<le> n \<Longrightarrow> row \<le> stopRow h n row \<and> stopRow h n row \<le> n"
proof (induction h n row rule: stopRow.induct)
  case (1 h n row)
  then show ?case by (auto simp: stopRow.simps [of h n row])
qed

lemma stopRow_before:
  "row \<le> j \<Longrightarrow> j < stopRow h n row \<Longrightarrow> \<not> isAborted h j \<and> destIsValid h j"
proof (induction h n row rule: stopRow.induct)
  case (1 h n row)
  show ?case
  proof (cases "row < n \<and> \<not> (isAborted h row \<or> \<not> destIsValid h row)")
    case True
    then have eq: "stopRow h n row = stopRow h n (row + 1)" by (simp add: stopRow.simps [of h n row])
    show ?thesis
    proof (cases "j = row")
      case True
      with \<open>row < n \<and> _\<close> show ?thesis by simp
    next
      case False
      with "1.prems" have "row + 1 \<le> j" by simp
      with "1.IH" True "1.prems"(2) eq show ?thesis by simp
    qed
  next
    case False
    then have "stopRow h n row \<le> row" by (auto simp: stopRow.simps [of h n row])
    with "1.prems" show ?thesis by simp
  qed
qed

lemma stopRow_at:
  "row \<le> n \<Longrightarrow> stopRow h n row < n \<Longrightarrow>
     isAborted h (stopRow h n row) \<or> \<not> destIsValid h (stopRow h n row)"
proof (induction h n row rule: stopRow.induct)
  case (1 h n row)
  then show ?case by (auto simp: stopRow.simps [of h n row] split: if_splits)
qed

lemma stopRow_le_stop:
  assumes "row \<le> k" "k < n" "isAborted h k \<or> \<not> destIsValid h k"
  shows "stopRow h n row \<le> k"
proof (rule ccontr)
  assume "\<not> stopRow h n row \<le> k"
  then have "k < stopRow h n row" by simp
  from stopRow_before [OF assms(1) this] assms(3) show False by simp
qed

subsection \<open>The row loop\<close>

lemma report_report: "report es (report ds st) = report (ds @ es) st"
  by (simp add: report_def)

lemma report_fields [simp]:
  "events (report es st) = events st @ es"
  "srcAcc (report es st) = srcAcc st"
  "destRow (report es st) = destRow st"
  "destCol (report es st) = destCol st"
  "resultCube (report es st) = resultCube st"
  by (simp_all add: report_def)

lemma nextRow_fields [simp]:
  "events (nextRow st) = events st"
  "srcAcc (nextRow st) = srcAcc st"
  "destRow (nextRow st) = destRow st + 1"
  "destCol (nextRow st) = 0"
  "resultCube (nextRow st) = resultCube st"
  by (simp_all add: nextRow_def)

lemma scanRows_done:
  "\<not> row < getRowCount pCube \<Longrightarrow> scanRows h p pCube row st = (None, st)"
  by (simp add: scanRows.simps [of h p pCube row st])

lemma scanRows_abort:
  "row < getRowCount pCube \<Longrightarrow> isAborted h row \<Longrightarrow>
   scanRows h p pCube row st =
     (Some Aborted,
      report (rowProgress p pCube row
              @ [IsAborted row, Finalize Abort ''Robert Edge Detection has been aborted.'']
              @ updateProgress p ''Robert Edge Detection has been aborted.'' 0 ABORT) st)"
  by (simp add: scanRows.simps [of h p pCube row st] Let_def report_report rowProgress_def)

lemma scanRows_invalid:
  "row < getRowCount pCube \<Longrightarrow> \<not> isAborted h row \<Longrightarrow> \<not> destIsValid h row \<Longrightarrow>
   scanRows h p pCube row st =
     (Some AccessorInvalid,
      report (rowProgress p pCube row
              @ [IsAborted row, IsValid row, Finalize Failure ''Unable to access the cube data.'']
              @ updateProgress p ''Unable to access the cube data.'' 0 ERRORS) st)"
  by (simp add: scanRows.simps [of h p pCube row st] Let_def report_report rowProgress_def)

lemma scanRows_step:
  "row < getRowCount pCube \<Longrightarrow> \<not> isAborted h row \<Longrightarrow> destIsValid h row \<Longrightarrow>
   scanRows h p pCube row st =
     scanRows h p pCube (row + 1)
       (nextRow (scanColumns h pCube row 0
          (report (rowProgress p pCube row @ [IsAborted row, IsValid row]) st)))"
  by (simp add: scanRows.simps [of h p pCube row st] Let_def report_report rowProgress_def)

lemma stopRow_step:
  "row < n \<Longrightarrow> \<not> isAborted h row \<Longrightarrow> destIsValid h row \<Longrightarrow>
   stopRow h n row = stopRow h n (row + 1)"
  by (simp add: stopRow.simps [of h n row])

lemma stopRow_here:
  "row < n \<Longrightarrow> isAborted h row \<or> \<not> destIsValid h row \<Longrightarrow> stopRow h n row = row"
  by (simp add: stopRow.simps [of h n row])

lemma stopRow_end: "\<not> row < n \<Longrightarrow> stopRow h n row = n"
  by (simp add: stopRow.simps [of h n row])

lemma scanRows_cases [case_names finished abort invalid step]:
  assumes "\<not> row < getRowCount pCube \<Longrightarrow> P"
    and "row < getRowCount pCube \<Longrightarrow> isAborted h row \<Longrightarrow> P"
    and "row < getRowCount pCube \<Longrightarrow> \<not> isAborted h row \<Longrightarrow> \<not> destIsValid h row \<Longrightarrow> P"
    and "row < getRowCount pCube \<Longrightarrow> \<not> isAborted h row \<Longrightarrow> destIsValid h row \<Longrightarrow> P"
  shows P
  using assms by blast

lemma scanRows_outcome:
  "fst (scanRows h p pCube row st) =
     (if stopRow h (getRowCount pCube) row < getRowCount pCube
      then (if isAborted h (stopRow h (getRowCount pCube) row) then Some Aborted
            else Some AccessorInvalid)
      else None)"
proof (induction h p pCube row st rule: scanRows.induct)
  case (1 h p pCube row st)
  show ?case
  proof (cases rule: scanRows_cases [where row = row and pCube = pCube and h = h])
    case finished
    then show ?thesis by (simp add: scanRows_done stopRow_end)
  next
    case abort
    then show ?thesis by (simp add: scanRows_abort stopRow_here)
  next
    case invalid
    then show ?thesis by (simp add: scanRows_invalid stopRow_here)
  next
    case step
    have "fst (scanRows h p pCube (row + 1)
       (nextRow (scanColumns h pCube row 0
          (report (rowProgress p pCube row @ [IsAborted row, IsValid row]) st)))) =
     (if stopRow h (getRowCount pCube) (row + 1) < getRowCount pCube
      then (if isAborted h (stopRow h (getRowCount pCube) (row + 1)) then Some Aborted
            else Some AccessorInvalid)
      else None)"
      using "1.IH" [OF step(1) refl refl step(2)] step(3)
      by (simp add: report_report rowProgress_def)
    then show ?thesis using step by (simp add: scanRows_step stopRow_step)
  qed
qed

lemma scanRows_geometry [simp]:
  "geometry (resultCube (snd (scanRows h p pCube row st))) = geometry (resultCube st)"
proof (induction h p pCube row st rule: scanRows.induct)
  case (1 h p pCube row st)
  show ?case
  proof (cases rule: scanRows_cases [where row = row and pCube = pCube and h = h])
    case finished
    then show ?thesis by (simp add: scanRows_done)
  next
    case abort
    then show ?thesis by (simp add: scanRows_abort)
  next
    case invalid
    then show ?thesis by (simp add: scanRows_invalid)
  next
    case step
    let ?st = "nextRow (scanColumns h pCube row 0
          (report (rowProgress p pCube row @ [IsAborted row, IsValid row]) st))"
    have "geometry (resultCube (snd (scanRows h p pCube (row + 1) ?st))) = geometry (resultCube ?st)"
      using "1.IH" [OF step(1) refl refl step(2)] step(3)
      by (simp add: report_report rowProgress_def)
    then show ?thesis
      using step by (simp add: scanRows_step)
  qed
qed

lemma scanRows_data:
  assumes "getDataType pCube \<noteq> INT4SCOMPLEX" "getDataType pCube \<noteq> FLT8COMPLEX"
    and "destRow st = row" and "destCol st = 0"
  shows "cubeData (resultCube (snd (scanRows h p pCube row st))) (r, c) =
           (if intSized pCube \<and> row \<le> r \<and> r < stopRow h (getRowCount pCube) row
               \<and> c < getColumnCount pCube
            then Some (kernelValue (nativeArith h) pCube r c)
            else cubeData (resultCube st) (r, c))"
  using assms
proof (induction h p pCube row st rule: scanRows.induct)
  case (1 h p pCube row st)
  show ?case
  proof (cases rule: scanRows_cases [where row = row and pCube = pCube and h = h])
    case finished
    then show ?thesis by (auto simp: scanRows_done stopRow_end)
  next
    case abort
    then show ?thesis by (auto simp: scanRows_abort stopRow_here)
  next
    case invalid
    then show ?thesis by (auto simp: scanRows_invalid stopRow_here)
  next
    case step
    let ?st3 = "report (rowProgress p pCube row @ [IsAborted row, IsValid row]) st"
    let ?st = "nextRow (scanColumns h pCube row 0 ?st3)"
    have d3: "destCol ?st3 = 0" "destRow ?st3 = row" using "1.prems" by simp_all
    have cols: "cubeData (resultCube ?st) (r, c) =
           (if intSized pCube \<and> r = row \<and> c < getColumnCount pCube
            then Some (kernelValue (nativeArith h) pCube row c)
            else cubeData (resultCube st) (r, c))"
      using scanColumns_data [OF "1.prems"(1,2) step(1) d3(1), of h r c] d3(2) by simp
    have ih: "cubeData (resultCube (snd (scanRows h p pCube (row + 1) ?st))) (r, c) =
           (if intSized pCube \<and> row + 1 \<le> r \<and> r < stopRow h (getRowCount pCube) (row + 1)
               \<and> c < getColumnCount pCube
            then Some (kernelValue (nativeArith h) pCube r c)
            else cubeData (resultCube ?st) (r, c))"
      using "1.IH" [OF step(1) refl refl step(2)] step(3) "1.prems"
      by (simp add: report_report rowProgress_def)
    have lt: "row + 1 \<le> stopRow h (getRowCount pCube) (row + 1)"
      using stopRow_bounds [of "row + 1" "getRowCount pCube" h] step(1) by simp
    have eq1: "scanRows h p pCube row st = scanRows h p pCube (row + 1) ?st"
      using step by (rule scanRows_step)
    have eq2: "stopRow h (getRowCount pCube) row = stopRow h (getRowCount pCube) (row + 1)"
      using step by (rule stopRow_step)
    show ?thesis
      unfolding eq1 eq2 ih cols using lt by (cases "r = row") auto
  qed
qed

lemma scanRows_events_extend:
  "\<exists>later. events (snd (scanRows h p pCube row st)) = events st @ later"
proof (induction h p pCube row st rule: scanRows.induct)
  case (1 h p pCube row st)
  show ?case
  proof (cases rule: scanRows_cases [where row = row and pCube = pCube and h = h])
    case finished
    then show ?thesis by (simp add: scanRows_done)
  next
    case abort
    then show ?thesis by (simp add: scanRows_abort)
  next
    case invalid
    then show ?thesis by (simp add: scanRows_invalid)
  next
    case step
    let ?st = "nextRow (scanColumns h pCube row 0
          (report (rowProgress p pCube row @ [IsAborted row, IsValid row]) st))"
    have "\<exists>later. events (snd (scanRows h p pCube (row + 1) ?st)) = events ?st @ later"
      using "1.IH" [OF step(1) refl refl step(2)] step(3)
      by (simp add: report_report rowProgress_def)
    then show ?thesis using step by (auto simp: scanRows_step)
  qed
qed

lemma count_rowProgress [simp]: "count_list (rowProgress p pCube row) (IsAborted r) = 0"
  by (simp add: rowProgress_def updateProgress_def)

lemma count_updateProgress [simp]: "count_list (updateProgress p msg n lvl) (IsAborted r) = 0"
  by (simp add: updateProgress_def)

lemma scanRows_polls:
  "count_list (events (snd (scanRows h p pCube row st))) (IsAborted r) =
     count_list (events st) (IsAborted r) +
       (if row \<le> r \<and> r \<le> stopRow h (getRowCount pCube) row \<and> r < getRowCount pCube
        then 1 else 0)"
proof (induction h p pCube row st rule: scanRows.induct)
  case (1 h p pCube row st)
  show ?case
  proof (cases rule: scanRows_cases [where row = row and pCube = pCube and h = h])
    case finished
    then show ?thesis by (auto simp: scanRows_done stopRow_end)
  next
    case abort
    then show ?thesis by (auto simp: scanRows_abort stopRow_here)
  next
    case invalid
    then show ?thesis by (auto simp: scanRows_invalid stopRow_here)
  next
    case step
    let ?st = "nextRow (scanColumns h pCube row 0
          (report (rowProgress p pCube row @ [IsAborted row, IsValid row]) st))"
    have ih: "count_list (events (snd (scanRows h p pCube (row + 1) ?st))) (IsAborted r) =
     count_list (events ?st) (IsAborted r) +
       (if row + 1 \<le> r \<and> r \<le> stopRow h (getRowCount pCube) (row + 1) \<and> r < getRowCount pCube
        then 1 else 0)"
      using "1.IH" [OF step(1) refl refl step(2)] step(3)
      by (simp add: report_report rowProgress_def)
    have lt: "row + 1 \<le> stopRow h (getRowCount pCube) (row + 1)"
      using stopRow_bounds [of "row + 1" "getRowCount pCube" h] step(1) by simp
    show ?thesis
      using ih step lt by (auto simp: scanRows_step stopRow_step)
  qed
qed

subsection \<open>A whole run\<close>

lemma startScan_fields [simp]:
  "events (startScan pCube) = []"
  "srcAcc (startScan pCube) = getDataAccessor"
  "destRow (startScan pCube) = 0"
  "destCol (startScan pCube) = 0"
  "geometry (resultCube (startScan pCube)) =
     (getName pCube @ ''_Edge_Detection_Result'', getRowCount pCube, getColumnCount pCube,
      getDataType pCube)"
  "cubeData (resultCube (startScan pCube)) = Map.empty"
  by (simp_all add: startScan_def createRasterElement_def geometry_def)

lemma execute_scanned:
  assumes "dataElementArg inArgs = Some pCube"
    and "getDataType pCube \<noteq> INT4SCOMPLEX" and "getDataType pCube \<noteq> FLT8COMPLEX"
    and "createRasterElementOk h"
  shows "pResultCube (execute h (Some inArgs) (Some outList)) =
           Some (resultCube (snd (scanRows h (progressArg inArgs) pCube 0 (startScan pCube))))"
    and "outcome (execute h (Some inArgs) (Some outList)) =
           (case fst (scanRows h (progressArg inArgs) pCube 0 (startScan pCube)) of
              Some stopped \<Rightarrow> stopped
            | None \<Rightarrow> if \<not> isBatch h \<and> \<not> createViewOk h then ViewFailed else Completed)"
    and "\<exists>last. reports (execute h (Some inArgs) (Some outList)) =
           events (snd (scanRows h (progressArg inArgs) pCube 0 (startScan pCube))) @ last \<and>
           (\<forall>r. count_list last (IsAborted r) = 0)"
  using assms
  by (auto simp: execute_def Let_def updateProgress_def split: prod.split option.split)

lemma execute_outcome:
  assumes "dataElementArg inArgs = Some pCube"
  shows "outcome (execute h (Some inArgs) (Some outList)) =
     (if getDataType pCube = INT4SCOMPLEX \<or> getDataType pCube = FLT8COMPLEX then UnsupportedEncoding
      else if \<not> createRasterElementOk h then AllocationFailed
      else if stopRow h (getRowCount pCube) 0 < getRowCount pCube
      then (if isAborted h (stopRow h (getRowCount pCube) 0) then Aborted else AccessorInvalid)
      else if \<not> isBatch h \<and> \<not> createViewOk h then ViewFailed
      else Completed)"
proof (cases "getDataType pCube = INT4SCOMPLEX \<or> getDataType pCube = FLT8COMPLEX")
  case True
  with assms show ?thesis by (simp add: execute_def failWith_def)
next
  case False
  show ?thesis
  proof (cases "createRasterElementOk h")
    case True
    with False assms show ?thesis
      by (simp add: execute_scanned(2) scanRows_outcome)
  next
    case no: False
    with False assms show ?thesis by (simp add: execute_def failWith_def)
  qed
qed

lemma execute_sample:
  assumes "dataElementArg inArgs = Some pCube"
    and "getDataType pCube \<noteq> INT4SCOMPLEX" and "getDataType pCube \<noteq> FLT8COMPLEX"
    and "createRasterElementOk h"
  shows "outputSample (execute h (Some inArgs) (Some outList)) r c =
           (if intSized pCube \<and> r < stopRow h (getRowCount pCube) 0 \<and> c < getColumnCount pCube
            then Some (kernelValue (nativeArith h) pCube r c) else None)"
  using scanRows_data [OF assms(2,3), of "startScan pCube" 0 h "progressArg inArgs" r c]
  by (simp add: outputSample_def execute_scanned(1) [OF assms])

lemma execute_geometry:
  assumes "dataElementArg inArgs = Some pCube"
    and "pResultCube (execute h (Some inArgs) (Some outList)) = Some result"
  shows "geometry result =
     (getName pCube @ ''_Edge_Detection_Result'', getRowCount pCube, getColumnCount pCube,
      getDataType pCube)"
proof (cases "getDataType pCube \<noteq> INT4SCOMPLEX \<and> getDataType pCube \<noteq> FLT8COMPLEX
              \<and> createRasterElementOk h")
  case True
  with assms execute_scanned(1) [of inArgs pCube h outList] show ?thesis by auto
next
  case False
  with assms show ?thesis by (auto simp: execute_def failWith_def Let_def split: if_splits)
qed

lemma execute_polls:
  assumes "dataElementArg inArgs = Some pCube"
    and "getDataType pCube \<noteq> INT4SCOMPLEX" and "getDataType pCube \<noteq> FLT8COMPLEX"
    and "createRasterElementOk h"
  shows "count_list (reports (execute h (Some inArgs) (Some outList))) (IsAborted r) =
     (if r \<le> stopRow h (getRowCount pCube) 0 \<and> r < getRowCount pCube then 1 else 0)"
proof -
  from execute_scanned(3) [OF assms, of outList]
  obtain last where "reports (execute h (Some inArgs) (Some outList)) =
           events (snd (scanRows h (progressArg inArgs) pCube 0 (startScan pCube))) @ last"
     and "\<forall>r. count_list last (IsAborted r) = 0" by blast
  then show ?thesis by (simp add: scanRows_polls)
qed

lemma completed_stopRow:
  assumes "dataElementArg inArgs = Some pCube"
    and "outcome (execute h (Some inArgs) (Some outList)) = Completed"
  shows "getDataType pCube \<noteq> INT4SCOMPLEX \<and> getDataType pCube \<noteq> FLT8COMPLEX
     \<and> createRasterElementOk h \<and> stopRow h (getRowCount pCube) 0 = getRowCount pCube"
  using assms(2) stopRow_bounds [of 0 "getRowCount pCube" h]
  unfolding execute_outcome [OF assms(1)]
  by (auto split: if_splits)

subsection \<open>The kernel in closed form, and the example\<close>



lemma integer_range:
  assumes "integerMin T = Some lo" and "integerMax T = Some hi"
  shows "- 2147483648 \<le> lo" and "lo \<le> 0" and "0 \<le> hi" and "hi \<le> 4294967295"
    and "T \<noteq> FLT4BYTES" and "T \<noteq> FLT8BYTES"
  using assms by (cases T; simp)+








lemma stopRow_example [simp]: "stopRow exampleHost 2 0 = 2"
  by (simp add: stopRow.simps exampleHost_def)

lemma example_completed:
  "integerMax T \<noteq> None \<Longrightarrow>
   outcome (execute exampleHost (Some (exampleArgs T)) (Some outList)) = Completed"
  by (cases T) (simp_all add: execute_outcome [of _ "exampleCube T"] exampleArgs_def
        exampleCube_def, simp_all add: exampleHost_def)

lemma isqrt_values: "isqrt 0 = 0" "isqrt 200 = 14" "isqrt 800 = 28" "isqrt 1000 = 31"
  by (simp_all add: isqrt.simps)

lemma example_kernel:
  assumes "integerMax T \<noteq> None"
  shows "kernelValue native (exampleCube T) 0 0 = 31"
    and "kernelValue native (exampleCube T) 0 1 = 28"
    and "kernelValue native (exampleCube T) 1 0 = 14"
    and "kernelValue native (exampleCube T) 1 1 = 0"
  using assms
  by (cases T; simp add: kernelValue_def exampleCube_def storedMagnitude_def gradientSq_def
        exactFragment_def isqrt_values)+


lemma exampleCube_fields [simp]:
  "getName (exampleCube T) = ''cube''"
  "getRowCount (exampleCube T) = 2"
  "getColumnCount (exampleCube T) = 2"
  "getDataType (exampleCube T) = T"
  by (simp_all add: exampleCube_def)

lemma exampleCube_intSized [simp]: "intSized (exampleCube T)"
  by (simp add: intSized_def)

lemma exampleHost_fields [simp]:
  "isAborted exampleHost n = False"
  "destIsValid exampleHost n = True"
  "createRasterElementOk exampleHost"
  "isBatch exampleHost"
  "createViewOk exampleHost"
  by (simp_all add: exampleHost_def)

lemma upt_two: "[0..<2] = [0, Suc 0]"
  by (simp add: numeral_2_eq_2)

lemma outputRows_samples:
  assumes "pResultCube run = Some result"
  shows "outputRows run =
     Some (map (\<lambda>r. map (\<lambda>c. outputSample run r c) [0..<getColumnCount result])
             [0..<getRowCount result])"
  using assms by (simp add: outputRows_def rasterRows_def outputSample_def)

lemma example_rows:
  assumes "integerMax T \<noteq> None" and "dataElementArg inArgs = Some (exampleCube T)"
    and "outcome (execute h (Some inArgs) (Some outList)) = Completed"
  shows "outputRows (execute h (Some inArgs) (Some outList)) =
           Some [[Some 31, Some 28], [Some 14, Some 0]]"
proof -
  let ?run = "execute h (Some inArgs) (Some outList)"
  note fin = completed_stopRow [OF assms(2,3)]
  from execute_scanned(1) [OF assms(2), of h outList] fin
  obtain result where res: "pResultCube ?run = Some result" by simp
  from execute_geometry [OF assms(2) res]
  have g: "getRowCount result = 2" "getColumnCount result = 2"
    by (simp_all add: geometry_def exampleCube_def)
  have s: "outputSample ?run r c =
             (if r < 2 \<and> c < 2 then Some (kernelValue (nativeArith h) (exampleCube T) r c) else None)" for r c
    using execute_sample [OF assms(2), of h outList r c] fin by simp
  have k: "kernelValue (nativeArith h) (exampleCube T) 0 (Suc 0) = 28"
    "kernelValue (nativeArith h) (exampleCube T) (Suc 0) 0 = 14"
    "kernelValue (nativeArith h) (exampleCube T) (Suc 0) (Suc 0) = 0"
    using example_kernel(2,3,4) [OF assms(1), of "nativeArith h"] by simp_all
  show ?thesis
    unfolding outputRows_samples [OF res] g upt_two
    by (simp add: s example_kernel(1) [OF assms(1)] k)
qed

lemma roundTo_zero [simp]: "roundTo p emax 0 = Finite 0"
  by (simp add: roundTo_def)

lemma decodeFloat_dyadic:
  fixes fb eb :: nat and bits :: int
  assumes d: "decodeFloat fb eb bits = Finite x"
    and fb: "fb < 53"
    and lo: "- 1074 \<le> 1 - (2 ^ (eb - 1) - 1) - int fb"
    and mid: "1 - (2 ^ (eb - 1) - 1) - int fb \<le> (971::int)"
    and hi: "2 ^ eb - 2 - (2 ^ (eb - 1) - 1) - int fb \<le> (971::int)"
  shows "\<exists>M t. x = real_of_int M * 2 powr real_of_int t \<and> \<bar>M\<bar> < 2 ^ 53 \<and> - 1074 \<le> t \<and> t \<le> 971"
proof -
  define f where "f = bits mod 2 ^ fb"
  define E where "E = (bits div 2 ^ fb) mod 2 ^ eb"
  define neg where "neg = ((bits div 2 ^ (fb + eb)) mod 2 = 1)"
  define bias :: int where "bias = 2 ^ (eb - 1) - 1"
  define M where "M = (if neg then - 1 else 1) * (if E = 0 then f else 2 ^ fb + f)"
  define t where "t = (if E = 0 then 1 - bias - int fb else E - bias - int fb)"
  have f: "0 \<le> f" "f < 2 ^ fb" by (simp_all add: f_def)
  have E: "0 \<le> E" "E < 2 ^ eb" by (simp_all add: E_def)
  have dec: "decodeFloat fb eb bits =
      (if E = 2 ^ eb - 1 then (if f \<noteq> 0 then NaN else if neg then NegInf else PosInf)
       else Finite (real_of_int M * 2 powr real_of_int t))"
    unfolding decodeFloat_def Let_def f_def [symmetric] E_def [symmetric] neg_def [symmetric]
      bias_def [symmetric] M_def t_def
    by simp
  from d have E2: "E \<noteq> 2 ^ eb - 1" and x: "x = real_of_int M * 2 powr real_of_int t"
    unfolding dec by (simp_all split: if_splits)
  have p: "(2::int) ^ fb \<le> 2 ^ 52" using fb by (intro power_increasing) simp_all
  have "\<bar>if E = 0 then f else 2 ^ fb + f\<bar> < 2 ^ 53" using f p by simp
  then have "\<bar>M\<bar> < 2 ^ 53" by (simp add: M_def abs_mult split: if_splits)
  moreover have "- 1074 \<le> t" using lo E by (simp add: t_def bias_def)
  moreover have "t \<le> 971" using mid hi E E2 by (simp add: t_def bias_def)
  ultimately show ?thesis using x by blast
qed

lemma decode64_dyadic:
  assumes "decodeFloat 52 11 bits = Finite x"
  shows "\<exists>M t. x = real_of_int M * 2 powr real_of_int t \<and> \<bar>M\<bar> < 2 ^ 53 \<and> - 1074 \<le> t \<and> t \<le> 971"
  using assms by (rule decodeFloat_dyadic) simp_all

lemma decode32_dyadic:
  assumes "decodeFloat 23 8 bits = Finite x"
  shows "\<exists>M t. x = real_of_int M * 2 powr real_of_int t \<and> \<bar>M\<bar> < 2 ^ 53 \<and> - 1074 \<le> t \<and> t \<le> 971"
  using assms by (rule decodeFloat_dyadic) simp_all

lemma dyadic_exact:
  assumes "\<exists>M t. x = real_of_int M * 2 powr real_of_int t \<and> \<bar>M\<bar> < 2 ^ 53 \<and> - 1074 \<le> t \<and> t \<le> 971"
  shows "roundTo 53 1023 x = Finite x" and "roundTo 53 1023 (- x) = Finite (- x)"
proof -
  from assms obtain M t where x: "x = real_of_int M * 2 powr real_of_int t"
    and M: "\<bar>M\<bar> < 2 ^ 53" and t: "- 1074 \<le> t" "t \<le> 971" by blast
  show "roundTo 53 1023 x = Finite x" unfolding x using M t by (rule roundTo_dyadic)
  have "\<bar>- M\<bar> < 2 ^ 53" using M by simp
  from roundTo_dyadic [OF this t] show "roundTo 53 1023 (- x) = Finite (- x)"
    by (simp add: x)
qed

lemma magnitude_same_sample:
  assumes "toDouble T v = Finite x"
    and "roundTo 53 1023 x = Finite x" and "roundTo 53 1023 (- x) = Finite (- x)"
  shows "magnitude T v v v v = Finite 0"
proof -
  have g: "dadd (dmul (Finite 1) (toDouble T v)) (dmul (Finite (- 1)) (toDouble T v)) = Finite 0"
    by (simp add: assms)
  show ?thesis unfolding magnitude_def Let_def g by simp
qed

lemma storedMagnitude_same_sample:
  assumes "finiteSample T v" and "T \<noteq> INT4SCOMPLEX" and "T \<noteq> FLT8COMPLEX"
  shows "storedMagnitude native T v v v v = 0"
proof (cases "T = FLT4BYTES \<or> T = FLT8BYTES")
  case False
  with assms obtain lo hi where T: "integerMin T = Some lo" "integerMax T = Some hi"
    by (cases T) auto
  with assms(1) integer_range(3) [OF T] have "exactFragment T v v v v"
    by (simp add: finiteSample_def exactFragment_def gradientSq_def isqrt.simps)
  then show ?thesis by (simp add: storedMagnitude_def gradientSq_def isqrt.simps)
next
  case True
  then have nx: "\<not> exactFragment T v v v v" by (auto simp: exactFragment_def)
  from True assms(1) obtain x where x: "toDouble T v = Finite x"
    by (auto simp: finiteSample_def split: fp.splits)
  have "\<exists>M t. x = real_of_int M * 2 powr real_of_int t \<and> \<bar>M\<bar> < 2 ^ 53 \<and> - 1074 \<le> t \<and> t \<le> 971"
  proof (cases "T = FLT4BYTES")
    case True
    with x have "decodeFloat 23 8 v = Finite x" by simp
    then show ?thesis by (rule decode32_dyadic)
  next
    case False
    with \<open>T = FLT4BYTES \<or> T = FLT8BYTES\<close> x have "decodeFloat 52 11 v = Finite x" by simp
    then show ?thesis by (rule decode64_dyadic)
  qed
  from magnitude_same_sample [OF x dyadic_exact [OF this]]
  have "magnitude T v v v v = Finite 0" .
  with nx True show ?thesis
    by (auto simp: storedMagnitude_def encodeFloat_def)
qed

lemma kernelValue_corner:
  assumes "0 < getRowCount pCube" and "0 < getColumnCount pCube"
    and "finiteSample (getDataType pCube)
           (cubeData pCube (getRowCount pCube - 1) (getColumnCount pCube - 1))"
    and "getDataType pCube \<noteq> INT4SCOMPLEX" and "getDataType pCube \<noteq> FLT8COMPLEX"
  shows "kernelValue native pCube (getRowCount pCube - 1) (getColumnCount pCube - 1) = 0"
proof -
  have m: "min (getColumnCount pCube - 1 + 1) (getColumnCount pCube - 1) = getColumnCount pCube - 1"
    "min (getRowCount pCube - 1 + 1) (getRowCount pCube - 1) = getRowCount pCube - 1"
    by simp_all
  show ?thesis
    unfolding kernelValue_def Let_def m
    using assms(3-5) by (rule storedMagnitude_same_sample)
qed

lemma nanCube_fields [simp]:
  "getRowCount nanCube = 1" "getColumnCount nanCube = 1" "getDataType nanCube = FLT8BYTES"
  "cubeData nanCube r c = 9221120237041090560" "intSized nanCube"
  "dataElementArg nanArgs = Some nanCube"
  by (simp_all add: nanCube_def nanArgs_def intSized_def)

lemma nan_kernel: "kernelValue native nanCube 0 0 = 9221120237041090560"
proof -
  have d: "decodeFloat 52 11 9221120237041090560 = NaN"
    by (simp add: decodeFloat_def Let_def)
  have "magnitude FLT8BYTES 9221120237041090560 9221120237041090560 9221120237041090560
          9221120237041090560 = NaN"
    by (simp add: magnitude_def Let_def d)
  then show ?thesis
    by (simp add: kernelValue_def storedMagnitude_def exactFragment_def encodeFloat_def)
qed

lemma nan_completed:
  "outcome (execute exampleHost (Some nanArgs) (Some outList)) = Completed"
  by (simp add: execute_outcome [of _ nanCube] stopRow.simps)

lemma stopRow_all_pass:
  assumes "\<forall>r<n. \<not> isAborted h r \<and> destIsValid h r"
  shows "stopRow h n 0 = n"
proof (rule ccontr)
  assume "stopRow h n 0 \<noteq> n"
  with stopRow_bounds [of 0 n h] have lt: "stopRow h n 0 < n" by simp
  from stopRow_at [OF _ lt] assms lt show False by auto
qed

lemma execute_outArgs:
  assumes "dataElementArg inArgs = Some pCube"
    and "outcome (execute h (Some inArgs) (Some outList)) = Completed"
  shows "\<exists>result. outArgs (execute h (Some inArgs) (Some outList)) =
           Some (setPlugInArgValue ''Robert_Edge_Result'' result outList)"
proof -
  have "fst (scanRows h (progressArg inArgs) pCube 0 (startScan pCube)) \<noteq> Some Completed"
    by (simp add: scanRows_outcome)
  with assms show ?thesis
    by (auto simp: execute_def Let_def failWith_def split: if_splits prod.splits option.splits)
qed

section \<open>The claims\<close>




text \<open>
  C2, as amended: for the 2 by 2 raster \<open>[[10, 20], [30, 40]]\<close> of any integer encoding, a
  completed run produces the output raster \<open>[[31, 28], [14, 0]]\<close>.
\<close>

theorem C2_example_output:
  assumes "integerMax T \<noteq> None" and "dataElementArg inArgs = Some (exampleCube T)"
    and "outcome (execute h (Some inArgs) (Some outList)) = Completed"
  shows "outputRows (execute h (Some inArgs) (Some outList)) =
           Some [[Some 31, Some 28], [Some 14, Some 0]]"
  using assms by (rule example_rows)

theorem C2_example_output_witness:
  "integerMax INT4SBYTES \<noteq> None
   \<and> dataElementArg (exampleArgs INT4SBYTES) = Some (exampleCube INT4SBYTES)
   \<and> outcome (execute exampleHost (Some (exampleArgs INT4SBYTES)) (Some getOutputSpecification)) = Completed
   \<and> outputRows (execute exampleHost (Some (exampleArgs INT4SBYTES)) (Some getOutputSpecification)) =
         Some [[Some 31, Some 28], [Some 14, Some 0]]"
proof -
  have h1: "integerMax INT4SBYTES \<noteq> None" by simp
  have h2: "dataElementArg (exampleArgs INT4SBYTES) = Some (exampleCube INT4SBYTES)"
    by (simp add: exampleArgs_def)
  have h3: "outcome (execute exampleHost (Some (exampleArgs INT4SBYTES)) (Some getOutputSpecification)) = Completed"
    by (simp add: example_completed)
  from C2_example_output [OF h1 h2 h3] h1 h2 h3 show ?thesis by simp
qed

text \<open>The output \<open>[[32, 28], [0, 0]]\<close> is not what the run produces.\<close>

theorem C2_expected_output_counterexample:
  "outcome (execute exampleHost (Some (exampleArgs INT4SBYTES)) (Some getOutputSpecification)) = Completed
   \<and> outputRows (execute exampleHost (Some (exampleArgs INT4SBYTES)) (Some getOutputSpecification)) \<noteq>
         Some [[Some 32, Some 28], [Some 0, Some 0]]"
proof -
  have h2: "dataElementArg (exampleArgs INT4SBYTES) = Some (exampleCube INT4SBYTES)"
    by (simp add: exampleArgs_def)
  have h3: "outcome (execute exampleHost (Some (exampleArgs INT4SBYTES)) (Some getOutputSpecification)) = Completed"
    by (simp add: example_completed)
  have "outputRows (execute exampleHost (Some (exampleArgs INT4SBYTES)) (Some getOutputSpecification)) =
         Some [[Some 31, Some 28], [Some 14, Some 0]]"
    using _ h2 h3 by (rule example_rows) simp
  with h3 show ?thesis by simp
qed

text \<open>
  C3: for a pixel of the last column, the "right" and the "lower-right" sample of the
  kernel are read at column \<open>colCount - 1\<close> itself; for a pixel of the last row, the "down"
  and the "lower-right" sample are read at row \<open>rowCount - 1\<close>. Every coordinate that the
  call passes to \<open>toPixel\<close> lies inside the raster.
\<close>

theorem C3_boundary_reads_clamped:
  assumes "row < getRowCount cube" and "col < getColumnCount cube"
  shows "(col + 1 = getColumnCount cube \<longrightarrow>
           edgeDetection native T cube acc (int row) (int col)
             (int (getRowCount cube)) (int (getColumnCount cube)) =
           (Some (storedMagnitude native T
                    (cubeData cube row col)
                    (cubeData cube row (getColumnCount cube - 1))
                    (cubeData cube (min (row + 1) (getRowCount cube - 1)) col)
                    (cubeData cube (min (row + 1) (getRowCount cube - 1))
                       (getColumnCount cube - 1))),
            \<lparr>accRow = int row, accCol = int col, accValid = True,
             accLog = accLog acc @
               [(int row, int (getColumnCount cube - 1)),
                (int (min (row + 1) (getRowCount cube - 1)), int col),
                (int (min (row + 1) (getRowCount cube - 1)), int (getColumnCount cube - 1)),
                (int row, int col)]\<rparr>))
       \<and> (row + 1 = getRowCount cube \<longrightarrow>
           edgeDetection native T cube acc (int row) (int col)
             (int (getRowCount cube)) (int (getColumnCount cube)) =
           (Some (storedMagnitude native T
                    (cubeData cube row col)
                    (cubeData cube row (min (col + 1) (getColumnCount cube - 1)))
                    (cubeData cube (getRowCount cube - 1) col)
                    (cubeData cube (getRowCount cube - 1)
                       (min (col + 1) (getColumnCount cube - 1)))),
            \<lparr>accRow = int row, accCol = int col, accValid = True,
             accLog = accLog acc @
               [(int row, int (min (col + 1) (getColumnCount cube - 1))),
                (int (getRowCount cube - 1), int col),
                (int (getRowCount cube - 1), int (min (col + 1) (getColumnCount cube - 1))),
                (int row, int col)]\<rparr>))
       \<and> list_all (\<lambda>(r, c). inBounds cube r c)
             (drop (length (accLog acc))
                (accLog (snd (edgeDetection native T cube acc (int row) (int col)
                   (int (getRowCount cube)) (int (getColumnCount cube))))))"
proof -
  have c: "min (col + 1) (getColumnCount cube - 1) < getColumnCount cube"
    using assms(2) by (rule clamp_next_less)
  have r: "min (row + 1) (getRowCount cube - 1) < getRowCount cube"
    using assms(1) by (rule clamp_next_less)
  have lastc: "col + 1 = getColumnCount cube \<Longrightarrow> min (col + 1) (getColumnCount cube - 1) = getColumnCount cube - 1"
    by simp
  have lastr: "row + 1 = getRowCount cube \<Longrightarrow> min (row + 1) (getRowCount cube - 1) = getRowCount cube - 1"
    by simp
  show ?thesis
    unfolding edgeDetection_inside [OF assms]
    using assms c r lastc lastr by (simp add: inBounds_def)
qed

theorem C3_boundary_reads_clamped_witness:
  "(1::nat) < getRowCount (exampleCube INT4SBYTES) \<and> (1::nat) < getColumnCount (exampleCube INT4SBYTES)
   \<and> edgeDetection (nativeArith exampleHost) INT4SBYTES (exampleCube INT4SBYTES) getDataAccessor 1 1 2 2 =
       (Some 0, \<lparr>accRow = 1, accCol = 1, accValid = True, accLog = [(1, 1), (1, 1), (1, 1), (1, 1)]\<rparr>)"
proof -
  have h1: "(1::nat) < getRowCount (exampleCube INT4SBYTES)" by (simp add: exampleCube_def)
  have h2: "(1::nat) < getColumnCount (exampleCube INT4SBYTES)" by (simp add: exampleCube_def)
  show ?thesis
    using h1 h2 C3_boundary_reads_clamped [OF h1 h2, of "nativeArith exampleHost" INT4SBYTES getDataAccessor]
    by (simp add: exampleCube_def getDataAccessor_def storedMagnitude_def gradientSq_def
          exactFragment_def isqrt.simps)
qed

text \<open>
  C4: with both argument lists and an input raster present, the run ends as
  \<open>UnsupportedEncoding\<close> exactly when the encoding is one of the two complex ones, and then
  no read cursor and no result cube exist and the only reports are the failure message;
  for every other encoding, when the result cube can be created, no row head finds the
  flag set or the write cursor invalid, and the view can be created unless the run is in
  batch mode, the run ends as \<open>Completed\<close>.
\<close>

theorem C4_complex_encodings_rejected:
  assumes "dataElementArg inArgs = Some pCube"
  shows "(outcome (execute h (Some inArgs) (Some outList)) = UnsupportedEncoding \<longleftrightarrow>
            getDataType pCube = INT4SCOMPLEX \<or> getDataType pCube = FLT8COMPLEX)
       \<and> (outcome (execute h (Some inArgs) (Some outList)) = UnsupportedEncoding \<longrightarrow>
            readCursor (execute h (Some inArgs) (Some outList)) = None
            \<and> pResultCube (execute h (Some inArgs) (Some outList)) = None
            \<and> reports (execute h (Some inArgs) (Some outList)) =
                Finalize Failure ''Edge detection cannot be performed on complex types.''
                # updateProgress (progressArg inArgs)
                    ''Edge detection cannot be performed on complex types.'' 0 ERRORS)
       \<and> (getDataType pCube \<noteq> INT4SCOMPLEX \<and> getDataType pCube \<noteq> FLT8COMPLEX
            \<and> createRasterElementOk h
            \<and> (\<forall>r<getRowCount pCube. \<not> isAborted h r \<and> destIsValid h r)
            \<and> (isBatch h \<or> createViewOk h) \<longrightarrow>
            outcome (execute h (Some inArgs) (Some outList)) = Completed)"
proof (intro conjI impI)
  show "outcome (execute h (Some inArgs) (Some outList)) = UnsupportedEncoding \<longleftrightarrow>
            getDataType pCube = INT4SCOMPLEX \<or> getDataType pCube = FLT8COMPLEX"
    unfolding execute_outcome [OF assms] by simp
next
  assume "outcome (execute h (Some inArgs) (Some outList)) = UnsupportedEncoding"
  then have c: "getDataType pCube = INT4SCOMPLEX \<or> getDataType pCube = FLT8COMPLEX"
    unfolding execute_outcome [OF assms] by (simp split: if_splits)
  with assms show "readCursor (execute h (Some inArgs) (Some outList)) = None"
    and "pResultCube (execute h (Some inArgs) (Some outList)) = None"
    and "reports (execute h (Some inArgs) (Some outList)) =
                Finalize Failure ''Edge detection cannot be performed on complex types.''
                # updateProgress (progressArg inArgs)
                    ''Edge detection cannot be performed on complex types.'' 0 ERRORS"
    by (auto simp: execute_def failWith_def)
next
  assume a: "getDataType pCube \<noteq> INT4SCOMPLEX \<and> getDataType pCube \<noteq> FLT8COMPLEX
            \<and> createRasterElementOk h
            \<and> (\<forall>r<getRowCount pCube. \<not> isAborted h r \<and> destIsValid h r)
            \<and> (isBatch h \<or> createViewOk h)"
  then have "stopRow h (getRowCount pCube) 0 = getRowCount pCube"
    by (simp add: stopRow_all_pass)
  with a show "outcome (execute h (Some inArgs) (Some outList)) = Completed"
    unfolding execute_outcome [OF assms] by auto
qed

theorem C4_complex_encodings_rejected_witness:
  "dataElementArg (exampleArgs FLT8COMPLEX) = Some (exampleCube FLT8COMPLEX)
   \<and> outcome (execute exampleHost (Some (exampleArgs FLT8COMPLEX)) (Some getOutputSpecification)) = UnsupportedEncoding
   \<and> readCursor (execute exampleHost (Some (exampleArgs FLT8COMPLEX)) (Some getOutputSpecification)) = None
   \<and> pResultCube (execute exampleHost (Some (exampleArgs FLT8COMPLEX)) (Some getOutputSpecification)) = None
   \<and> dataElementArg (exampleArgs FLT8BYTES) = Some (exampleCube FLT8BYTES)
   \<and> outcome (execute exampleHost (Some (exampleArgs FLT8BYTES)) (Some getOutputSpecification)) = Completed"
proof -
  have h1: "dataElementArg (exampleArgs FLT8COMPLEX) = Some (exampleCube FLT8COMPLEX)"
    and h2: "dataElementArg (exampleArgs FLT8BYTES) = Some (exampleCube FLT8BYTES)"
    by (simp_all add: exampleArgs_def)
  from C4_complex_encodings_rejected [OF h1, of exampleHost getOutputSpecification]
    C4_complex_encodings_rejected [OF h2, of exampleHost getOutputSpecification] h1 h2
  show ?thesis by simp
qed

text \<open>
  C5: a completed run has a result cube, and the result cube of any run has the row count,
  the column count and the encoding of the input raster, and the input's name followed by
  \<open>_Edge_Detection_Result\<close>; the scan leaves what \<open>createRasterElement\<close> was given
  unchanged.
\<close>

theorem C5_result_geometry:
  assumes "dataElementArg inArgs = Some pCube"
  shows "(outcome (execute h (Some inArgs) (Some outList)) = Completed \<longrightarrow>
            pResultCube (execute h (Some inArgs) (Some outList)) \<noteq> None)
       \<and> (\<forall>result. pResultCube (execute h (Some inArgs) (Some outList)) = Some result \<longrightarrow>
            getName result = getName pCube @ ''_Edge_Detection_Result''
            \<and> getRowCount result = getRowCount pCube
            \<and> getColumnCount result = getColumnCount pCube
            \<and> getDataType result = getDataType pCube)"
proof (intro conjI allI impI)
  assume "outcome (execute h (Some inArgs) (Some outList)) = Completed"
  from completed_stopRow [OF assms this] execute_scanned(1) [OF assms, of h outList]
  show "pResultCube (execute h (Some inArgs) (Some outList)) \<noteq> None" by simp
next
  fix result
  assume "pResultCube (execute h (Some inArgs) (Some outList)) = Some result"
  from execute_geometry [OF assms this]
  show "getName result = getName pCube @ ''_Edge_Detection_Result''"
    and "getRowCount result = getRowCount pCube"
    and "getColumnCount result = getColumnCount pCube"
    and "getDataType result = getDataType pCube"
    by (simp_all add: geometry_def)
qed

theorem C5_result_geometry_witness:
  "dataElementArg (exampleArgs INT4SBYTES) = Some (exampleCube INT4SBYTES)
   \<and> outcome (execute exampleHost (Some (exampleArgs INT4SBYTES)) (Some getOutputSpecification)) = Completed
   \<and> map_option geometry
        (pResultCube (execute exampleHost (Some (exampleArgs INT4SBYTES)) (Some getOutputSpecification))) =
      Some (''cube_Edge_Detection_Result'', 2, 2, INT4SBYTES)"
proof -
  have h1: "dataElementArg (exampleArgs INT4SBYTES) = Some (exampleCube INT4SBYTES)"
    by (simp add: exampleArgs_def)
  have h2: "outcome (execute exampleHost (Some (exampleArgs INT4SBYTES)) (Some getOutputSpecification)) = Completed"
    by (simp add: example_completed)
  from C5_result_geometry [OF h1, of exampleHost getOutputSpecification] h1 h2 show ?thesis
    by (auto simp: geometry_def)
qed

text \<open>
  C6: if the flag is set when row \<open>k\<close> is about to be scanned, and the write cursor was
  valid at every earlier row head, the run ends as \<open>Aborted\<close> and no sample of a row
  \<open>\<ge> k\<close> is written. The flag is polled at most once for each row, and a row with one
  written sample has all its samples written.
\<close>

theorem C6_cancellation_at_row:
  assumes "dataElementArg inArgs = Some pCube"
    and "getDataType pCube \<noteq> INT4SCOMPLEX" and "getDataType pCube \<noteq> FLT8COMPLEX"
    and "createRasterElementOk h"
    and "k < getRowCount pCube" and "isAborted h k" and "\<forall>j<k. destIsValid h j"
  shows "outcome (execute h (Some inArgs) (Some outList)) = Aborted
       \<and> (\<forall>r c. k \<le> r \<longrightarrow> outputSample (execute h (Some inArgs) (Some outList)) r c = None)
       \<and> (\<forall>r c c'. outputSample (execute h (Some inArgs) (Some outList)) r c \<noteq> None \<longrightarrow>
              c' < getColumnCount pCube \<longrightarrow>
              outputSample (execute h (Some inArgs) (Some outList)) r c' \<noteq> None)
       \<and> (\<forall>r. count_list (reports (execute h (Some inArgs) (Some outList))) (IsAborted r) \<le> 1)"
proof -
  let ?stop = "stopRow h (getRowCount pCube) 0"
  have le: "?stop \<le> k" using assms(5,6) by (intro stopRow_le_stop) simp_all
  then have lt: "?stop < getRowCount pCube" using assms(5) by simp
  have ab: "isAborted h ?stop"
  proof (cases "?stop = k")
    case True
    with assms(6) show ?thesis by simp
  next
    case False
    with le have "?stop < k" by simp
    with assms(7) have "destIsValid h ?stop" by simp
    with stopRow_at [OF _ lt] show ?thesis by simp
  qed
  have out: "outcome (execute h (Some inArgs) (Some outList)) = Aborted"
    unfolding execute_outcome [OF assms(1)] using assms(2,3,4) lt ab by simp
  note s = execute_sample [OF assms(1-4), of outList]
  show ?thesis
    using out le by (auto simp: s execute_polls [OF assms(1-4)])
qed

theorem C6_cancellation_at_row_witness:
  "dataElementArg (exampleArgs INT4SBYTES) = Some (exampleCube INT4SBYTES)
   \<and> isAborted (abortedHost 1) 1
   \<and> outcome (execute (abortedHost 1) (Some (exampleArgs INT4SBYTES)) (Some getOutputSpecification)) = Aborted
   \<and> outputSample (execute (abortedHost 1) (Some (exampleArgs INT4SBYTES)) (Some getOutputSpecification)) 1 0 = None
   \<and> outputSample (execute (abortedHost 1) (Some (exampleArgs INT4SBYTES)) (Some getOutputSpecification)) 1 1 = None"
proof -
  have h1: "dataElementArg (exampleArgs INT4SBYTES) = Some (exampleCube INT4SBYTES)"
    by (simp add: exampleArgs_def)
  have h2: "getDataType (exampleCube INT4SBYTES) \<noteq> INT4SCOMPLEX"
    and h3: "getDataType (exampleCube INT4SBYTES) \<noteq> FLT8COMPLEX" by simp_all
  have h4: "createRasterElementOk (abortedHost 1)" by (simp add: abortedHost_def)
  have h5: "1 < getRowCount (exampleCube INT4SBYTES)" by simp
  have h6: "isAborted (abortedHost 1) 1" by (simp add: abortedHost_def)
  have h7: "\<forall>j<1. destIsValid (abortedHost 1) j" by (simp add: abortedHost_def)
  from C6_cancellation_at_row [OF h1 h2 h3 h4 h5 h6 h7, of getOutputSpecification] h1 h6
  show ?thesis by simp
qed

text \<open>
  C7, as amended: at the head of each row the progress report comes first (the percentage
  \<open>row * 100 / rowCount\<close>, the product taken in \<open>unsigned int\<close>), then the abort flag is
  polled (if set, the run ends as \<open>Aborted\<close>), then the write cursor is tested (if invalid,
  the run ends as \<open>AccessorInvalid\<close>), and only then are the columns scanned.
\<close>

theorem C7_row_head_order:
  assumes "row < getRowCount pCube"
  shows "(isAborted h row \<longrightarrow>
            scanRows h p pCube row st =
              (Some Aborted,
               report (updateProgress p ''Calculating result''
                         ((row * 100) mod 4294967296 div getRowCount pCube) NORMAL
                       @ [IsAborted row, Finalize Abort ''Robert Edge Detection has been aborted.'']
                       @ updateProgress p ''Robert Edge Detection has been aborted.'' 0 ABORT) st))
       \<and> (\<not> isAborted h row \<and> \<not> destIsValid h row \<longrightarrow>
            scanRows h p pCube row st =
              (Some AccessorInvalid,
               report (updateProgress p ''Calculating result''
                         ((row * 100) mod 4294967296 div getRowCount pCube) NORMAL
                       @ [IsAborted row, IsValid row,
                          Finalize Failure ''Unable to access the cube data.'']
                       @ updateProgress p ''Unable to access the cube data.'' 0 ERRORS) st))
       \<and> (\<not> isAborted h row \<and> destIsValid h row \<longrightarrow>
            (\<exists>later. events (snd (scanRows h p pCube row st)) =
               events st
               @ updateProgress p ''Calculating result''
                   ((row * 100) mod 4294967296 div getRowCount pCube) NORMAL
               @ [IsAborted row, IsValid row] @ later))"
proof (intro conjI impI)
  assume "isAborted h row"
  with assms show "scanRows h p pCube row st =
              (Some Aborted,
               report (updateProgress p ''Calculating result''
                         ((row * 100) mod 4294967296 div getRowCount pCube) NORMAL
                       @ [IsAborted row, Finalize Abort ''Robert Edge Detection has been aborted.'']
                       @ updateProgress p ''Robert Edge Detection has been aborted.'' 0 ABORT) st)"
    by (simp add: scanRows_abort rowProgress_def)
next
  assume "\<not> isAborted h row \<and> \<not> destIsValid h row"
  with assms show "scanRows h p pCube row st =
              (Some AccessorInvalid,
               report (updateProgress p ''Calculating result''
                         ((row * 100) mod 4294967296 div getRowCount pCube) NORMAL
                       @ [IsAborted row, IsValid row,
                          Finalize Failure ''Unable to access the cube data.'']
                       @ updateProgress p ''Unable to access the cube data.'' 0 ERRORS) st)"
    by (simp add: scanRows_invalid rowProgress_def)
next
  assume a: "\<not> isAborted h row \<and> destIsValid h row"
  let ?st = "nextRow (scanColumns h pCube row 0
          (report (rowProgress p pCube row @ [IsAborted row, IsValid row]) st))"
  from scanRows_events_extend [of h p pCube "row + 1" ?st]
  obtain later where "events (snd (scanRows h p pCube (row + 1) ?st)) = events ?st @ later"
    by blast
  with a assms have "events (snd (scanRows h p pCube row st)) =
               events st
               @ updateProgress p ''Calculating result''
                   ((row * 100) mod 4294967296 div getRowCount pCube) NORMAL
               @ [IsAborted row, IsValid row] @ later"
    by (simp add: scanRows_step rowProgress_def)
  then show "\<exists>later. events (snd (scanRows h p pCube row st)) =
               events st
               @ updateProgress p ''Calculating result''
                   ((row * 100) mod 4294967296 div getRowCount pCube) NORMAL
               @ [IsAborted row, IsValid row] @ later" ..
qed

theorem C7_row_head_order_witness:
  "0 < getRowCount (exampleCube INT4SBYTES) \<and> isAborted (abortedHost 0) 0
   \<and> scanRows (abortedHost 0) True (exampleCube INT4SBYTES) 0 (startScan (exampleCube INT4SBYTES)) =
       (Some Aborted,
        report [UpdateProgress ''Calculating result'' 0 NORMAL, IsAborted 0,
                Finalize Abort ''Robert Edge Detection has been aborted.'',
                UpdateProgress ''Robert Edge Detection has been aborted.'' 0 ABORT]
          (startScan (exampleCube INT4SBYTES)))"
proof -
  have h1: "0 < getRowCount (exampleCube INT4SBYTES)" by simp
  have h2: "isAborted (abortedHost 0) 0" by (simp add: abortedHost_def)
  from C7_row_head_order [OF h1, of "abortedHost 0" True "startScan (exampleCube INT4SBYTES)"] h1 h2
  show ?thesis by (simp add: updateProgress_def)
qed

text \<open>
  With the flag set from the start, the progress of row 0 is reported before the flag is
  polled: the order "flag, cursor, progress" is not the order of the run.
\<close>

theorem C7_progress_before_checks_counterexample:
  "isAborted (abortedHost 0) 0
   \<and> reports (execute (abortedHost 0) (Some (exampleArgs INT4SBYTES)) (Some getOutputSpecification)) =
       [UpdateProgress ''Calculating result'' 0 NORMAL, IsAborted 0,
        Finalize Abort ''Robert Edge Detection has been aborted.'',
        UpdateProgress ''Robert Edge Detection has been aborted.'' 0 ABORT]
   \<and> eventsBefore (IsAborted 0)
        (reports (execute (abortedHost 0) (Some (exampleArgs INT4SBYTES)) (Some getOutputSpecification))) =
       [UpdateProgress ''Calculating result'' 0 NORMAL]"
proof -
  have h2: "isAborted (abortedHost 0) 0" by (simp add: abortedHost_def)
  have "scanRows (abortedHost 0) True (exampleCube INT4SBYTES) 0 (startScan (exampleCube INT4SBYTES)) =
       (Some Aborted,
        report [UpdateProgress ''Calculating result'' 0 NORMAL, IsAborted 0,
                Finalize Abort ''Robert Edge Detection has been aborted.'',
                UpdateProgress ''Robert Edge Detection has been aborted.'' 0 ABORT]
          (startScan (exampleCube INT4SBYTES)))"
    using h2 by (simp add: scanRows_abort rowProgress_def updateProgress_def)
  then show ?thesis
    using h2 by (simp add: execute_def exampleArgs_def abortedHost_def eventsBefore_def)
qed

text \<open>
  C8: the sample stored for a pixel depends only on the four input samples at
  \<open>(row, col)\<close>, \<open>(row, min (col + 1) (colCount - 1))\<close>,
  \<open>(min (row + 1) (rowCount - 1), col)\<close> and
  \<open>(min (row + 1) (rowCount - 1), min (col + 1) (colCount - 1))\<close>: two rasters that agree
  there give the same call, and those four are the only coordinates the call reads, so
  \<open>prevRow\<close> and \<open>prevCol\<close> are never used.
\<close>

theorem C8_depends_on_four_samples:
  assumes "getRowCount cube' = getRowCount cube" and "getColumnCount cube' = getColumnCount cube"
    and "row < getRowCount cube" and "col < getColumnCount cube"
    and "cubeData cube' row col = cubeData cube row col"
    and "cubeData cube' row (min (col + 1) (getColumnCount cube - 1)) =
         cubeData cube row (min (col + 1) (getColumnCount cube - 1))"
    and "cubeData cube' (min (row + 1) (getRowCount cube - 1)) col =
         cubeData cube (min (row + 1) (getRowCount cube - 1)) col"
    and "cubeData cube' (min (row + 1) (getRowCount cube - 1)) (min (col + 1) (getColumnCount cube - 1)) =
         cubeData cube (min (row + 1) (getRowCount cube - 1)) (min (col + 1) (getColumnCount cube - 1))"
  shows "edgeDetection native T cube' acc (int row) (int col)
           (int (getRowCount cube')) (int (getColumnCount cube')) =
         edgeDetection native T cube acc (int row) (int col)
           (int (getRowCount cube)) (int (getColumnCount cube))
       \<and> set (drop (length (accLog acc))
             (accLog (snd (edgeDetection native T cube acc (int row) (int col)
                (int (getRowCount cube)) (int (getColumnCount cube)))))) =
           {(int row, int col),
            (int row, int (min (col + 1) (getColumnCount cube - 1))),
            (int (min (row + 1) (getRowCount cube - 1)), int col),
            (int (min (row + 1) (getRowCount cube - 1)), int (min (col + 1) (getColumnCount cube - 1)))}"
proof -
  have r': "row < getRowCount cube'" and c': "col < getColumnCount cube'"
    using assms(1-4) by simp_all
  show ?thesis
    unfolding edgeDetection_inside [OF assms(3,4)] edgeDetection_inside [OF r' c']
    using assms by auto
qed

theorem C8_depends_on_four_samples_witness:
  "edgeDetection (nativeArith exampleHost) INT4SBYTES (constantCube INT4SBYTES 40) getDataAccessor 1 1 2 2 =
   edgeDetection (nativeArith exampleHost) INT4SBYTES (exampleCube INT4SBYTES) getDataAccessor 1 1 2 2
   \<and> cubeData (constantCube INT4SBYTES 40) 0 0 \<noteq> cubeData (exampleCube INT4SBYTES) 0 0"
proof -
  have g: "getRowCount (constantCube INT4SBYTES 40) = getRowCount (exampleCube INT4SBYTES)"
    "getColumnCount (constantCube INT4SBYTES 40) = getColumnCount (exampleCube INT4SBYTES)"
    by (simp_all add: constantCube_def exampleCube_def)
  have b: "(1::nat) < getRowCount (exampleCube INT4SBYTES)"
    "(1::nat) < getColumnCount (exampleCube INT4SBYTES)"
    by (simp_all add: exampleCube_def)
  have s: "cubeData (constantCube INT4SBYTES 40) 1 1 = cubeData (exampleCube INT4SBYTES) 1 1"
    by (simp add: constantCube_def exampleCube_def)
  have m: "min (1 + 1) (getColumnCount (exampleCube INT4SBYTES) - 1) = (1::nat)"
    "min (1 + 1) (getRowCount (exampleCube INT4SBYTES) - 1) = (1::nat)"
    by (simp_all add: exampleCube_def)
  have "edgeDetection (nativeArith exampleHost) INT4SBYTES (constantCube INT4SBYTES 40) getDataAccessor
          (int 1) (int 1) (int (getRowCount (constantCube INT4SBYTES 40)))
          (int (getColumnCount (constantCube INT4SBYTES 40))) =
        edgeDetection (nativeArith exampleHost) INT4SBYTES (exampleCube INT4SBYTES) getDataAccessor
          (int 1) (int 1) (int (getRowCount (exampleCube INT4SBYTES)))
          (int (getColumnCount (exampleCube INT4SBYTES)))"
    using C8_depends_on_four_samples [OF g b, of "nativeArith exampleHost" INT4SBYTES getDataAccessor]
      s m by simp
  then show ?thesis
    by (simp add: constantCube_def exampleCube_def)
qed

text \<open>
  C9, what the code does: \<open>getOutputSpecification\<close> declares the one output argument
  \<open>Result\<close>, and a completed run stores its result cube under the name
  \<open>Robert_Edge_Result\<close>. Run on the declared list, it leaves the list as it was: the
  argument \<open>Result\<close> holds no value.
\<close>

theorem C9_declared_output_left_unset:
  assumes "dataElementArg inArgs = Some pCube"
    and "outcome (execute h (Some inArgs) (Some getOutputSpecification)) = Completed"
  shows "map fst getOutputSpecification = [''Result'']
       \<and> outArgs (execute h (Some inArgs) (Some getOutputSpecification)) =
           Some getOutputSpecification
       \<and> getPlugInArgValue ''Result'' getOutputSpecification = None"
proof -
  from execute_outArgs [OF assms] obtain result where
    "outArgs (execute h (Some inArgs) (Some getOutputSpecification)) =
       Some (setPlugInArgValue ''Robert_Edge_Result'' result getOutputSpecification)" ..
  then show ?thesis
    by (simp add: getOutputSpecification_def addArg_def setPlugInArgValue_def
          getPlugInArgValue_def)
qed

theorem C9_declared_output_left_unset_witness:
  "dataElementArg (exampleArgs INT4SBYTES) = Some (exampleCube INT4SBYTES)
   \<and> outcome (execute exampleHost (Some (exampleArgs INT4SBYTES)) (Some getOutputSpecification)) = Completed
   \<and> outArgs (execute exampleHost (Some (exampleArgs INT4SBYTES)) (Some getOutputSpecification)) =
       Some [(''Result'', None)]"
proof -
  have h1: "dataElementArg (exampleArgs INT4SBYTES) = Some (exampleCube INT4SBYTES)"
    by (simp add: exampleArgs_def)
  have h2: "outcome (execute exampleHost (Some (exampleArgs INT4SBYTES)) (Some getOutputSpecification)) = Completed"
    by (simp add: example_completed)
  from C9_declared_output_left_unset [OF h1 h2] h1 h2 show ?thesis
    by (simp add: getOutputSpecification_def addArg_def)
qed

text \<open>
  C10, as amended: after a completed run on a non-empty raster with fewer than \<open>2^31\<close>
  rows and columns whose bottom-right sample is a finite number of its encoding (a value of
  the type for an integer encoding, neither a NaN nor an infinity for a floating one), the
  output sample at the bottom-right corner is zero: the four clamped reads of the kernel
  all hit the corner sample itself, so \<open>gx = gy = 0\<close> and the cast of 0 is stored.
\<close>

theorem C10_corner_sample_zero:
  assumes "dataElementArg inArgs = Some pCube"
    and "outcome (execute h (Some inArgs) (Some outList)) = Completed"
    and "0 < getRowCount pCube" and "getRowCount pCube < 2147483648"
    and "0 < getColumnCount pCube" and "getColumnCount pCube < 2147483648"
    and "finiteSample (getDataType pCube)
           (cubeData pCube (getRowCount pCube - 1) (getColumnCount pCube - 1))"
  shows "outputSample (execute h (Some inArgs) (Some outList))
           (getRowCount pCube - 1) (getColumnCount pCube - 1) = Some 0
       \<and> accLog (snd (edgeDetection native T pCube acc
                  (int (getRowCount pCube - 1)) (int (getColumnCount pCube - 1))
                  (int (getRowCount pCube)) (int (getColumnCount pCube)))) =
           accLog acc @
             [(int (getRowCount pCube - 1), int (getColumnCount pCube - 1)),
              (int (getRowCount pCube - 1), int (getColumnCount pCube - 1)),
              (int (getRowCount pCube - 1), int (getColumnCount pCube - 1)),
              (int (getRowCount pCube - 1), int (getColumnCount pCube - 1))]"
proof -
  note fin = completed_stopRow [OF assms(1,2)]
  have sized: "intSized pCube" using assms(4,6) by (simp add: intSized_def)
  have r: "getRowCount pCube - 1 < getRowCount pCube"
    and c: "getColumnCount pCube - 1 < getColumnCount pCube" using assms(3,5) by simp_all
  have m: "min (getColumnCount pCube - 1 + 1) (getColumnCount pCube - 1) = getColumnCount pCube - 1"
    "min (getRowCount pCube - 1 + 1) (getRowCount pCube - 1) = getRowCount pCube - 1"
    by simp_all
  have "outputSample (execute h (Some inArgs) (Some outList))
           (getRowCount pCube - 1) (getColumnCount pCube - 1) =
        Some (kernelValue (nativeArith h) pCube (getRowCount pCube - 1) (getColumnCount pCube - 1))"
    using execute_sample [of inArgs pCube h outList "getRowCount pCube - 1" "getColumnCount pCube - 1"]
      assms(1,3,5) fin sized by simp
  moreover have nc: "getDataType pCube \<noteq> INT4SCOMPLEX" "getDataType pCube \<noteq> FLT8COMPLEX"
    using fin by simp_all
  ultimately have "outputSample (execute h (Some inArgs) (Some outList))
           (getRowCount pCube - 1) (getColumnCount pCube - 1) = Some 0"
    by (simp only: kernelValue_corner [OF assms(3,5,7) nc])
  moreover have "accLog (snd (edgeDetection native T pCube acc
                  (int (getRowCount pCube - 1)) (int (getColumnCount pCube - 1))
                  (int (getRowCount pCube)) (int (getColumnCount pCube)))) =
           accLog acc @
             [(int (getRowCount pCube - 1), int (getColumnCount pCube - 1)),
              (int (getRowCount pCube - 1), int (getColumnCount pCube - 1)),
              (int (getRowCount pCube - 1), int (getColumnCount pCube - 1)),
              (int (getRowCount pCube - 1), int (getColumnCount pCube - 1))]"
    unfolding edgeDetection_inside [OF r c] m by simp
  ultimately show ?thesis ..
qed

theorem C10_corner_sample_zero_witness:
  "dataElementArg (exampleArgs FLT4BYTES) = Some (exampleCube FLT4BYTES)
   \<and> outcome (execute exampleHost (Some (exampleArgs FLT4BYTES)) (Some getOutputSpecification)) = Completed
   \<and> finiteSample FLT4BYTES 40
   \<and> outputSample (execute exampleHost (Some (exampleArgs FLT4BYTES)) (Some getOutputSpecification)) 1 1 = Some 0"
proof -
  have h1: "dataElementArg (exampleArgs FLT4BYTES) = Some (exampleCube FLT4BYTES)"
    by (simp add: exampleArgs_def)
  have h2: "outcome (execute exampleHost (Some (exampleArgs FLT4BYTES)) (Some getOutputSpecification)) = Completed"
    by (simp add: execute_outcome [OF h1])
  have h3: "0 < getRowCount (exampleCube FLT4BYTES)"
    and h4: "getRowCount (exampleCube FLT4BYTES) < 2147483648"
    and h5: "0 < getColumnCount (exampleCube FLT4BYTES)"
    and h6: "getColumnCount (exampleCube FLT4BYTES) < 2147483648"
    by simp_all
  have f: "finiteSample FLT4BYTES 40"
    by (simp add: finiteSample_def decodeFloat_def Let_def)
  then have h7: "finiteSample (getDataType (exampleCube FLT4BYTES))
           (cubeData (exampleCube FLT4BYTES) (getRowCount (exampleCube FLT4BYTES) - 1)
              (getColumnCount (exampleCube FLT4BYTES) - 1))"
    by (simp add: exampleCube_def)
  from C10_corner_sample_zero [OF h1 h2 h3 h4 h5 h6 h7] h1 h2 f show ?thesis by simp
qed

text \<open>
  The statement for every non-empty raster fails on a raster of one \<open>FLT8BYTES\<close> sample
  that is a NaN: the four reads hit that sample, \<open>gx\<close> and \<open>gy\<close> are NaN, and the run
  stores a NaN at the corner, not zero.
\<close>

theorem C10_nan_corner_counterexample:
  "0 < getRowCount nanCube \<and> 0 < getColumnCount nanCube
   \<and> outcome (execute exampleHost (Some nanArgs) (Some getOutputSpecification)) = Completed
   \<and> toDouble (getDataType nanCube)
        (cubeData nanCube (getRowCount nanCube - 1) (getColumnCount nanCube - 1)) = NaN
   \<and> outputSample (execute exampleHost (Some nanArgs) (Some getOutputSpecification))
        (getRowCount nanCube - 1) (getColumnCount nanCube - 1) = Some 9221120237041090560
   \<and> decodeFloat 52 11 9221120237041090560 = NaN
   \<and> outputSample (execute exampleHost (Some nanArgs) (Some getOutputSpecification))
        (getRowCount nanCube - 1) (getColumnCount nanCube - 1) \<noteq> Some 0"
proof -
  have d: "decodeFloat 52 11 9221120237041090560 = NaN"
    by (simp add: decodeFloat_def Let_def)
  have "outputSample (execute exampleHost (Some nanArgs) (Some getOutputSpecification)) 0 0 =
          Some 9221120237041090560"
    using execute_sample [of nanArgs nanCube exampleHost getOutputSpecification 0 0]
    by (simp add: nan_kernel stopRow.simps)
  then show ?thesis by (simp add: nan_completed d)
qed

end
